theory Spec2Isabelle
  imports Complex_Main
begin

section \<open>JavaScript values and errors\<close>

text \<open>
  The values a parsed JSON request body is made of, and \<open>undefined\<close> for a property that
  is missing. Strings are lists of code units. A number is the rational it denotes
  (\<open>Infinity\<close>, which an overflowing literal parses to, is outside this type). An object is
  the list of its members in the order of the text: of two members with one name the later
  one is the property. \<open>JFunction\<close> is a built-in method, which reading a property of an
  array can give (\<open>[].keys\<close>).
\<close>

datatype jsval =
  JUndefined | JNull | JBool bool | JNum rat | JStr string
| JArr "jsval list" | JObj "(string \<times> jsval) list" | JFunction


text \<open>The property \<open>name\<close> of an object with these members: \<open>undefined\<close> when no member
  has that name.\<close>

definition property :: "(string \<times> jsval) list \<Rightarrow> string \<Rightarrow> jsval" where
  "property members name =
     (case map_of (rev members) name of None \<Rightarrow> JUndefined | Some v \<Rightarrow> v)"

text \<open>
  A thrown \<open>Error\<close>: its message and its \<open>status\<close> property, which the services set on
  the errors they raise themselves and which is absent on every other error.
\<close>

datatype js_error = Error string "nat option"


fun err_status :: "js_error \<Rightarrow> nat option" where
  "err_status (Error m s) = s"

datatype log_entry = LogInfo string | LogError string

text \<open>
  Reading the property \<open>name\<close> of a value, \<open>v.name\<close>, for the names the handlers read
  (\<open>encryptedContent\<close>, \<open>iv\<close>, \<open>keys\<close>, \<open>userId\<close>, \<open>encryptedKey\<close>, \<open>length\<close>): a
  \<open>TypeError\<close> on \<open>null\<close> and \<open>undefined\<close>; an object's own member; the number of
  elements of an array and the number of code units of a string for \<open>length\<close>; the method
  \<open>Array.prototype.keys\<close> (which takes no argument) for \<open>keys\<close> of an array; \<open>undefined\<close>
  otherwise.
\<close>

fun js_get :: "jsval \<Rightarrow> string \<Rightarrow> js_error + jsval" where
  "js_get JUndefined name =
     Inl (Error (''Cannot read properties of undefined (reading '' @ name @ '')'') None)"
| "js_get JNull name =
     Inl (Error (''Cannot read properties of null (reading '' @ name @ '')'') None)"
| "js_get (JObj members) name = Inr (property members name)"
| "js_get (JArr xs) name =
     Inr (if name = ''length'' then JNum (of_nat (length xs))
          else if name = ''keys'' then JFunction else JUndefined)"
| "js_get (JStr s) name =
     Inr (if name = ''length'' then JNum (of_nat (length s)) else JUndefined)"
| "js_get JFunction name = Inr (if name = ''length'' then JNum 0 else JUndefined)"
| "js_get (JBool b) name = Inr JUndefined"
| "js_get (JNum n) name = Inr JUndefined"






section \<open>Local credential store (frontend/src/utils/storage.js)\<close>

text \<open>The browser's \<open>localStorage\<close>: a map from keys to strings; \<open>getItem\<close> of a
  missing key is \<open>null\<close>, here \<open>None\<close>.\<close>

type_synonym localStorage = "string \<rightharpoonup> string"

definition TOKEN_KEY :: string where
  "TOKEN_KEY = ''messaging_auth_token''"

definition USER_KEY :: string where
  "USER_KEY = ''messaging_user''"

definition PRIVATE_KEY :: string where
  "PRIVATE_KEY = ''messaging_private_key''"

definition getItem :: "localStorage \<Rightarrow> string \<Rightarrow> string option" where
  "getItem st k = st k"

definition setItem :: "localStorage \<Rightarrow> string \<Rightarrow> string \<Rightarrow> localStorage" where
  "setItem st k v = st(k \<mapsto> v)"

definition removeItem :: "localStorage \<Rightarrow> string \<Rightarrow> localStorage" where
  "removeItem st k = st(k := None)"

definition getToken :: "localStorage \<Rightarrow> string option" where
  "getToken st = getItem st TOKEN_KEY"

definition setToken :: "localStorage \<Rightarrow> string \<Rightarrow> localStorage" where
  "setToken st token = setItem st TOKEN_KEY token"

definition removeToken :: "localStorage \<Rightarrow> localStorage" where
  "removeToken st = removeItem st TOKEN_KEY"

text \<open>
  \<open>getUser\<close> parses the stored text with \<open>JSON.parse\<close>, a parameter here: \<open>Inl\<close> when it
  throws, \<open>Inr None\<close> when the text denotes \<open>null\<close>. An empty stored string is falsy and is
  not parsed. The \<open>catch\<close> turns every throw into \<open>null\<close>.
\<close>

definition getUser :: "(string \<Rightarrow> js_error + 'j option) \<Rightarrow> localStorage \<Rightarrow> 'j option" where
  "getUser JSON_parse st =
     (case getItem st USER_KEY of
        None \<Rightarrow> None
      | Some user \<Rightarrow>
          if user = [] then None
          else (case JSON_parse user of Inl e \<Rightarrow> None | Inr v \<Rightarrow> v))"

definition setUser :: "('j \<Rightarrow> string) \<Rightarrow> localStorage \<Rightarrow> 'j \<Rightarrow> localStorage" where
  "setUser JSON_stringify st user = setItem st USER_KEY (JSON_stringify user)"

definition removeUser :: "localStorage \<Rightarrow> localStorage" where
  "removeUser st = removeItem st USER_KEY"

definition getPrivateKey :: "localStorage \<Rightarrow> string option" where
  "getPrivateKey st = getItem st PRIVATE_KEY"

definition setPrivateKey :: "localStorage \<Rightarrow> string \<Rightarrow> localStorage" where
  "setPrivateKey st key = setItem st PRIVATE_KEY key"

definition removePrivateKey :: "localStorage \<Rightarrow> localStorage" where
  "removePrivateKey st = removeItem st PRIVATE_KEY"

definition clearAuth :: "localStorage \<Rightarrow> localStorage" where
  "clearAuth st = removePrivateKey (removeUser (removeToken st))"

section \<open>Data access layer: users\<close>

record user_row =
  user_id :: nat
  username :: string
  password_hash :: string
  public_key :: "string option"
  encrypted_private_key :: "string option"
  encrypted_private_key_iv :: "string option"

text \<open>
  Modelled from the spec: the data access layer (\<open>backend/src/data\<close>) is not among the
  sources. find-user-by-username returns the row of the user with that username, or
  nothing; usernames are unique, so the first match is the match.
\<close>

definition findUserByUsername :: "user_row list \<Rightarrow> string \<Rightarrow> user_row option" where
  "findUserByUsername users name = find (\<lambda>u. username u = name) users"

section \<open>Auth service (backend/src/services/authService.js)\<close>

record login_user =
  lu_id :: nat
  lu_username :: string

record login_result =
  token :: string
  user :: login_user
  encryptedPrivateKey :: "string option"
  encryptedPrivateKeyIv :: "string option"

text \<open>\<open>x || null\<close> on a nullable string column: an empty string is falsy too.\<close>

definition or_null :: "string option \<Rightarrow> string option" where
  "or_null x = (case x of None \<Rightarrow> None | Some s \<Rightarrow> if s = [] then None else Some s)"

text \<open>
  \<open>bcrypt.compare(data, hash)\<close> of the \<open>bcrypt\<close> library, awaited: the promise rejects with
  a plain \<open>Error\<close> (no \<open>status\<close>) unless \<open>data\<close> is a string (or a \<open>Buffer\<close>, which a JSON
  body cannot carry); otherwise it resolves to whether the string matches the hash, which
  is the parameter \<open>hash_matches\<close>. The hash is the string the store holds.
\<close>

definition bcrypt_compare ::
  "(string \<Rightarrow> string \<Rightarrow> bool) \<Rightarrow> jsval \<Rightarrow> string \<Rightarrow> js_error + bool" where
  "bcrypt_compare hash_matches data hash =
     (case data of
        JStr s \<Rightarrow> Inr (hash_matches s hash)
      | _ \<Rightarrow> Inl (Error ''data and hash must be strings'' None))"

text \<open>
  \<open>loginUser\<close>. The route \<open>POST /login\<close> passes \<open>req.body.password\<close> on whenever it is
  truthy, so the password is any JSON value. \<open>jwt.sign\<close> (with the configured secret and
  options) is a library call, a parameter here. The result pairs what the function writes
  to the server's log with what it throws (\<open>Inl\<close>) or returns (\<open>Inr\<close>); a rejection of
  \<open>bcrypt.compare\<close> passes through the \<open>await\<close> as it is, with nothing logged.
\<close>

definition loginUser ::
  "(string \<Rightarrow> string \<Rightarrow> bool) \<Rightarrow> (nat \<Rightarrow> string \<Rightarrow> string) \<Rightarrow> user_row list \<Rightarrow>
   string \<Rightarrow> jsval \<Rightarrow> log_entry list \<times> (js_error + login_result)" where
  "loginUser hash_matches jwt_sign users name password =
     (case findUserByUsername users name of
        None \<Rightarrow>
          ([LogInfo ''Login attempt for non-existent user''],
           Inl (Error ''Invalid username or password'' (Some 401)))
      | Some u \<Rightarrow>
          (case bcrypt_compare hash_matches password (password_hash u) of
             Inl err \<Rightarrow> ([], Inl err)
           | Inr validPassword \<Rightarrow>
               if \<not> validPassword then
                 ([LogInfo ''Failed login attempt''],
                  Inl (Error ''Invalid username or password'' (Some 401)))
               else
                 ([LogInfo ''User logged in''],
                  Inr \<lparr> token = jwt_sign (user_id u) (username u),
                        user = \<lparr> lu_id = user_id u, lu_username = username u \<rparr>,
                        encryptedPrivateKey = or_null (encrypted_private_key u),
                        encryptedPrivateKeyIv = or_null (encrypted_private_key_iv u) \<rparr>)))"

section \<open>Data access layer: messages and deliveries\<close>

text \<open>The rows of the tables \<open>messages\<close> and \<open>message_deliveries\<close>, and the store as the
  three tables.\<close>

record message_row =
  msg_id :: nat
  sender_id :: nat
  encrypted_content :: string
  encryption_iv :: string
  created_at :: string

record delivery_row =
  d_message_id :: nat
  d_user_id :: nat
  encrypted_key :: string
  delivered :: bool

record database =
  users :: "user_row list"
  messages :: "message_row list"
  message_deliveries :: "delivery_row list"

text \<open>A row of the join of a delivery with its message and the sender's username.\<close>

record joined_row =
  j_id :: nat
  j_sender_id :: nat
  j_sender_username :: string
  j_encrypted_content :: string
  j_encryption_iv :: string
  j_encrypted_key :: string
  j_created_at :: string

text \<open>
  Modelled from the spec: the identifier a new message gets, unique among the messages
  stored: one more than the largest identifier in the table.
\<close>

definition fresh_message_id :: "database \<Rightarrow> nat" where
  "fresh_message_id db = Suc (fold max (map msg_id (messages db)) 0)"

text \<open>
  Modelled from the spec: create-message(sender, ciphertext, iv) stores the row and
  returns it; \<open>id\<close>, \<open>senderId\<close> and \<open>createdAt\<close> of the result are read off the row. The
  timestamp the store assigns is the argument \<open>now\<close>.
\<close>

definition db_createMessage ::
  "string \<Rightarrow> nat \<Rightarrow> string \<Rightarrow> string \<Rightarrow> database \<Rightarrow> message_row \<times> database" where
  "db_createMessage now senderId encryptedContent iv db =
     (let m = \<lparr> msg_id = fresh_message_id db, sender_id = senderId,
                 encrypted_content = encryptedContent, encryption_iv = iv, created_at = now \<rparr>
      in (m, db\<lparr> messages := messages db @ [m] \<rparr>))"

text \<open>
  Modelled from the spec: create-delivery-with-key(message id, user id, encrypted key)
  inserts an undelivered row; \<open>message_deliveries\<close> has a uniqueness constraint on
  \<open>(message_id, user_id)\<close>, so inserting a second row for a pair fails.
\<close>

definition db_createDeliveryWithKey ::
  "nat \<Rightarrow> nat \<Rightarrow> string \<Rightarrow> database \<Rightarrow> js_error + database" where
  "db_createDeliveryWithKey messageId userId encryptedKey db =
     (if list_ex (\<lambda>d. d_message_id d = messageId \<and> d_user_id d = userId) (message_deliveries db)
      then Inl (Error ''UNIQUE constraint failed: message_deliveries.message_id, message_deliveries.user_id'' None)
      else Inr (db\<lparr> message_deliveries := message_deliveries db @
              [\<lparr> d_message_id = messageId, d_user_id = userId,
                 encrypted_key = encryptedKey, delivered = False \<rparr>] \<rparr>))"

text \<open>Modelled from the spec: mark-delivered(message id, user id) sets the delivered
  flag of the rows of that pair.\<close>

definition db_markDelivered :: "nat \<Rightarrow> nat \<Rightarrow> database \<Rightarrow> database" where
  "db_markDelivered messageId userId db =
     db\<lparr> message_deliveries :=
          map (\<lambda>d. if d_message_id d = messageId \<and> d_user_id d = userId
                    then d\<lparr> delivered := True \<rparr> else d)
              (message_deliveries db) \<rparr>"

text \<open>Modelled from the spec: the join of one delivery row with its message and with
  the sender's username; no row when the message or the sender is not stored.\<close>

definition join_delivery :: "database \<Rightarrow> delivery_row \<Rightarrow> joined_row list" where
  "join_delivery db d =
     (case find (\<lambda>m. msg_id m = d_message_id d) (messages db) of
        None \<Rightarrow> []
      | Some m \<Rightarrow>
          (case find (\<lambda>u. user_id u = sender_id m) (users db) of
             None \<Rightarrow> []
           | Some u \<Rightarrow>
               [\<lparr> j_id = msg_id m, j_sender_id = sender_id m, j_sender_username = username u,
                  j_encrypted_content = encrypted_content m,
                  j_encryption_iv = encryption_iv m, j_encrypted_key = encrypted_key d,
                  j_created_at = created_at m \<rparr>]))"

text \<open>Modelled from the spec: get-undelivered-for-user joins message, sender username
  and this user's encrypted key, only for rows with delivered = false.\<close>

definition db_getUndeliveredForUserE2E :: "nat \<Rightarrow> database \<Rightarrow> joined_row list" where
  "db_getUndeliveredForUserE2E userId db =
     concat (map (join_delivery db)
       (filter (\<lambda>d. d_user_id d = userId \<and> \<not> delivered d) (message_deliveries db)))"



section \<open>Validation rules (backend/src/utils/validation.js)\<close>





section \<open>Message routes: request parsing (backend/src/routes/messages.js)\<close>

subsection \<open>\<open>parseInt\<close>\<close>




text \<open>White space that \<open>parseInt\<close> skips, among the code units below 256.\<close>

definition is_js_space :: "char \<Rightarrow> bool" where
  "is_js_space c = (of_char c \<in> {9, 10, 11, 12, 13, 32, 160 :: nat})"

definition digit_of :: "char \<Rightarrow> nat option" where
  "digit_of c =
     (let n = (of_char c :: nat) in
      if 48 \<le> n \<and> n \<le> 57 then Some (n - 48)
      else if 97 \<le> n \<and> n \<le> 122 then Some (n - 87)
      else if 65 \<le> n \<and> n \<le> 90 then Some (n - 55)
      else None)"

definition digit_in_radix :: "nat \<Rightarrow> char \<Rightarrow> bool" where
  "digit_in_radix r c = (case digit_of c of None \<Rightarrow> False | Some d \<Rightarrow> d < r)"

definition digits_value :: "nat \<Rightarrow> string \<Rightarrow> nat" where
  "digits_value r cs = foldl (\<lambda>acc c. acc * r + (case digit_of c of None \<Rightarrow> 0 | Some d \<Rightarrow> d)) 0 cs"








subsection \<open>The send handler\<close>











section \<open>Message service and long-poll broker (backend/src/services/messageService.js)\<close>

text \<open>A message as the server sends it to one recipient: the ciphertext, the IV and
  this recipient's wrapped key.\<close>

record enc_message =
  em_id :: nat
  em_senderId :: nat
  em_senderUsername :: string
  em_encryptedContent :: string
  em_iv :: string
  em_encryptedKey :: string
  em_createdAt :: string

record key_item =
  k_userId :: nat
  k_encryptedKey :: string

record broadcast_data =
  b_id :: nat
  b_senderId :: nat
  b_senderUsername :: string
  b_encryptedContent :: string
  b_iv :: string
  b_createdAt :: string

record message_result =
  r_id :: nat
  r_senderId :: nat
  r_senderUsername :: string
  r_createdAt :: string


text \<open>A waiting long-poll client: its pending response, named by a number, and the
  handle of its timer.\<close>

record client =
  c_res :: nat
  c_timeout :: nat

text \<open>
  What the service does to the world outside its own variables, in the order it does
  it: rows written to the store, lines logged, timers cleared, and responses sent
  (\<open>ResJson\<close>) or found broken (\<open>ResJsonThrew\<close>).
\<close>

datatype event =
    CreateMessage nat
  | CreateDelivery nat nat
  | MarkDelivered nat nat
  | Logged log_entry
  | ClearTimeout nat
  | ResJson nat "enc_message list"
  | ResJsonThrew nat

text \<open>
  The state of the server process: the store, the module's \<open>waitingClients\<close> map (a
  JavaScript \<open>Map\<close> keeps its keys in insertion order, so a list of pairs with distinct
  keys) and the events so far.
\<close>

record server =
  db :: database
  waitingClients :: "(nat \<times> client) list"
  trace :: "event list"

definition emit :: "event \<Rightarrow> server \<Rightarrow> server" where
  "emit e sv = sv\<lparr> trace := trace sv @ [e] \<rparr>"

definition map_delete :: "nat \<Rightarrow> (nat \<times> 'v) list \<Rightarrow> (nat \<times> 'v) list" where
  "map_delete k xs = filter (\<lambda>kv. fst kv \<noteq> k) xs"

definition map_set :: "nat \<Rightarrow> 'v \<Rightarrow> (nat \<times> 'v) list \<Rightarrow> (nat \<times> 'v) list" where
  "map_set k v xs =
     (if k \<in> set (map fst xs) then map (\<lambda>kv. if fst kv = k then (k, v) else kv) xs
      else xs @ [(k, v)])"

text \<open>The call \<open>db.markDelivered(messageId, userId)\<close>.\<close>

definition call_markDelivered :: "nat \<Rightarrow> nat \<Rightarrow> server \<Rightarrow> server" where
  "call_markDelivered messageId userId sv =
     emit (MarkDelivered messageId userId) (sv\<lparr> db := db_markDelivered messageId userId (db sv) \<rparr>)"

text \<open>The shape every fetched message is given.\<close>

definition shape_message :: "joined_row \<Rightarrow> enc_message" where
  "shape_message msg =
     \<lparr> em_id = j_id msg, em_senderId = j_sender_id msg,
       em_senderUsername = j_sender_username msg,
       em_encryptedContent = j_encrypted_content msg, em_iv = j_encryption_iv msg,
       em_encryptedKey = j_encrypted_key msg, em_createdAt = j_created_at msg \<rparr>"

text \<open>
  One round of the loop of \<open>broadcastToClientsE2E\<close> over \<open>waitingClients\<close>, on the entry
  \<open>(userId, client)\<close>; \<open>n\<close> is the loop's counter \<open>delivered\<close>. \<open>throws\<close> tells of which
  responses \<open>res.json\<close> throws.
\<close>

fun broadcast_step ::
  "(nat \<Rightarrow> bool) \<Rightarrow> broadcast_data \<Rightarrow> (nat \<rightharpoonup> string) \<Rightarrow> nat \<times> client \<Rightarrow>
   server \<times> nat \<Rightarrow> server \<times> nat" where
  "broadcast_step throws messageData keyMap (userId, cl) (sv, n) =
     (if userId = b_senderId messageData then (sv, n)
      else
        (case keyMap userId of
           None \<Rightarrow> (sv, n)
         | Some userEncryptedKey \<Rightarrow>
             if userEncryptedKey = [] then (sv, n)
             else
               (let sv1 = emit (ClearTimeout (c_timeout cl)) sv in
                if throws (c_res cl) then
                  (let sv2 = emit (ResJsonThrew (c_res cl)) sv1;
                       sv3 = emit (Logged (LogError ''Failed to send to polling client'')) sv2
                   in (sv3\<lparr> waitingClients := map_delete userId (waitingClients sv3) \<rparr>,
                       n))
                else
                  (let sv2 = emit (ResJson (c_res cl)
                                 [\<lparr> em_id = b_id messageData,
                                    em_senderId = b_senderId messageData,
                                    em_senderUsername = b_senderUsername messageData,
                                    em_encryptedContent = b_encryptedContent messageData,
                                    em_iv = b_iv messageData,
                                    em_encryptedKey = userEncryptedKey,
                                    em_createdAt = b_createdAt messageData \<rparr>]) sv1;
                       sv3 = sv2\<lparr> waitingClients := map_delete userId (waitingClients sv2) \<rparr>;
                       sv4 = call_markDelivered (b_id messageData) userId sv3
                   in (sv4, n + 1)))))"

text \<open>\<open>keyMap\<close>: a later entry of \<open>keys\<close> for a user replaces an earlier one.\<close>

definition build_keyMap :: "key_item list \<Rightarrow> (nat \<rightharpoonup> string)" where
  "build_keyMap keys = map_of (rev (map (\<lambda>k. (k_userId k, k_encryptedKey k)) keys))"

definition broadcastToClientsE2E ::
  "(nat \<Rightarrow> bool) \<Rightarrow> broadcast_data \<Rightarrow> key_item list \<Rightarrow> server \<Rightarrow> server" where
  "broadcastToClientsE2E throws messageData keys sv =
     (let keyMap = build_keyMap keys;
          r = fold (broadcast_step throws messageData keyMap) (waitingClients sv) (sv, 0)
      in if snd r > 0 then emit (Logged (LogInfo ''E2E broadcast sent'')) (fst r) else fst r)"

text \<open>The loop of \<open>createMessage\<close> over \<open>keys\<close>; it stops where the store throws.\<close>

fun create_deliveries :: "nat \<Rightarrow> key_item list \<Rightarrow> server \<Rightarrow> (js_error + unit) \<times> server" where
  "create_deliveries messageId [] sv = (Inr (), sv)"
| "create_deliveries messageId (k # ks) sv =
     (case db_createDeliveryWithKey messageId (k_userId k) (k_encryptedKey k) (db sv) of
        Inl e \<Rightarrow> (Inl e, sv)
      | Inr db' \<Rightarrow>
          create_deliveries messageId ks
            (emit (CreateDelivery messageId (k_userId k)) (sv\<lparr> db := db' \<rparr>)))"

definition createMessage ::
  "(nat \<Rightarrow> bool) \<Rightarrow> string \<Rightarrow> nat \<Rightarrow> string \<Rightarrow> string \<Rightarrow> string \<Rightarrow> key_item list \<Rightarrow> server \<Rightarrow>
   (js_error + message_result) \<times> server" where
  "createMessage throws now senderId senderUsername encryptedContent iv keys sv =
     (let created = db_createMessage now senderId encryptedContent iv (db sv);
          message = fst created;
          sv1 = emit (CreateMessage (msg_id message)) (sv\<lparr> db := snd created \<rparr>);
          looped = create_deliveries (msg_id message) keys sv1
      in case fst looped of
           Inl e \<Rightarrow> (Inl e, snd looped)
         | Inr u \<Rightarrow>
             (let sv3 = call_markDelivered (msg_id message) senderId (snd looped);
                  sv4 = emit (Logged (LogInfo ''Message sent (E2E encrypted)'')) sv3;
                  broadcastData =
                    \<lparr> b_id = msg_id message, b_senderId = senderId,
                      b_senderUsername = senderUsername, b_encryptedContent = encryptedContent,
                      b_iv = iv, b_createdAt = created_at message \<rparr>;
                  sv5 = broadcastToClientsE2E throws broadcastData keys sv4
              in (Inr \<lparr> r_id = msg_id message, r_senderId = senderId,
                        r_senderUsername = senderUsername, r_createdAt = created_at message \<rparr>,
                  sv5)))"

definition getMessagesForUser :: "nat \<Rightarrow> server \<Rightarrow> enc_message list \<times> server" where
  "getMessagesForUser userId sv =
     (let msgs = db_getUndeliveredForUserE2E userId (db sv);
          sv1 = fold (\<lambda>msg. call_markDelivered (j_id msg) userId) msgs sv;
          result = map shape_message msgs
      in (result,
          if length result > 0 then emit (Logged (LogInfo ''E2E messages delivered'')) sv1
          else sv1))"


text \<open>\<open>res.json(body)\<close> inside \<open>try\<close> with an empty \<open>catch\<close>.\<close>

definition try_json :: "(nat \<Rightarrow> bool) \<Rightarrow> nat \<Rightarrow> enc_message list \<Rightarrow> server \<Rightarrow> server" where
  "try_json throws res msgs sv =
     (if throws res then emit (ResJsonThrew res) sv else emit (ResJson res msgs) sv)"

text \<open>
  \<open>registerPollingClient\<close>. \<open>timeout\<close> is the handle \<open>setTimeout\<close> returns; what the timer
  and the \<open>close\<close> listener do when they fire is \<open>poll_timeout\<close> and \<open>poll_close\<close> below.
\<close>

definition registerPollingClient ::
  "(nat \<Rightarrow> bool) \<Rightarrow> nat \<Rightarrow> nat \<Rightarrow> nat \<Rightarrow> server \<Rightarrow> server" where
  "registerPollingClient throws userId res timeout sv =
     (let sv1 = (case map_of (waitingClients sv) userId of
                   None \<Rightarrow> sv
                 | Some existing \<Rightarrow>
                     try_json throws (c_res existing) []
                       (emit (ClearTimeout (c_timeout existing)) sv));
          sv2 = sv1\<lparr> waitingClients :=
                  map_set userId \<lparr> c_res = res, c_timeout = timeout \<rparr> (waitingClients sv1) \<rparr>
      in emit (Logged (LogInfo ''Poll registered'')) sv2)"

definition poll_timeout :: "(nat \<Rightarrow> bool) \<Rightarrow> nat \<Rightarrow> nat \<Rightarrow> server \<Rightarrow> server" where
  "poll_timeout throws userId res sv =
     emit (Logged (LogInfo ''Poll timeout''))
       (try_json throws res [] (sv\<lparr> waitingClients := map_delete userId (waitingClients sv) \<rparr>))"

definition poll_close :: "nat \<Rightarrow> nat \<Rightarrow> server \<Rightarrow> server" where
  "poll_close userId res sv =
     (case map_of (waitingClients sv) userId of
        None \<Rightarrow> sv
      | Some cl \<Rightarrow>
          if c_res cl = res
          then (emit (ClearTimeout (c_timeout cl)) sv)
                 \<lparr> waitingClients := map_delete userId (waitingClients sv) \<rparr>
          else sv)"

definition removePollingClient :: "nat \<Rightarrow> server \<Rightarrow> server" where
  "removePollingClient userId sv =
     (case map_of (waitingClients sv) userId of
        None \<Rightarrow> sv
      | Some cl \<Rightarrow>
          (emit (ClearTimeout (c_timeout cl)) sv)
            \<lparr> waitingClients := map_delete userId (waitingClients sv) \<rparr>)"

subsection \<open>Notions for stating what the service does to the store\<close>

text \<open>The rows of the pairs (message, user) in \<open>S\<close> marked delivered, every other row
  as it is.\<close>

definition mark_pairs :: "(nat \<times> nat) set \<Rightarrow> delivery_row list \<Rightarrow> delivery_row list" where
  "mark_pairs S rows =
     map (\<lambda>d. if (d_message_id d, d_user_id d) \<in> S then d\<lparr> delivered := True \<rparr> else d) rows"



text \<open>
  A waiting entry the broadcast addresses: not the sender, and \<open>keys\<close> has a non-empty
  wrapped key for the user. An addressed entry is served when \<open>res.json\<close> does not throw
  on its response.
\<close>

definition addressed :: "broadcast_data \<Rightarrow> (nat \<rightharpoonup> string) \<Rightarrow> nat \<Rightarrow> bool" where
  "addressed messageData keyMap userId =
     (userId \<noteq> b_senderId messageData \<and>
      (case keyMap userId of None \<Rightarrow> False | Some k \<Rightarrow> k \<noteq> []))"

definition served ::
  "(nat \<Rightarrow> bool) \<Rightarrow> broadcast_data \<Rightarrow> (nat \<rightharpoonup> string) \<Rightarrow> nat \<times> client \<Rightarrow> bool" where
  "served throws messageData keyMap uc =
     (addressed messageData keyMap (fst uc) \<and> \<not> throws (c_res (snd uc)))"

definition served_users ::
  "(nat \<Rightarrow> bool) \<Rightarrow> broadcast_data \<Rightarrow> key_item list \<Rightarrow> server \<Rightarrow> nat list" where
  "served_users throws messageData keys sv =
     map fst (filter (served throws messageData (build_keyMap keys)) (waitingClients sv))"

text \<open>The events of the service since the state \<open>sv\<close>, in the state \<open>sv'\<close>.\<close>

definition new_events :: "server \<Rightarrow> server \<Rightarrow> event list" where
  "new_events sv sv' = drop (length (trace sv)) (trace sv')"

text \<open>The message the broadcast sends to a served user.\<close>

definition broadcast_message :: "broadcast_data \<Rightarrow> string \<Rightarrow> enc_message" where
  "broadcast_message messageData userEncryptedKey =
     \<lparr> em_id = b_id messageData, em_senderId = b_senderId messageData,
       em_senderUsername = b_senderUsername messageData,
       em_encryptedContent = b_encryptedContent messageData, em_iv = b_iv messageData,
       em_encryptedKey = userEncryptedKey, em_createdAt = b_createdAt messageData \<rparr>"

text \<open>The events of one round of the broadcast loop.\<close>

definition round_events ::
  "(nat \<Rightarrow> bool) \<Rightarrow> broadcast_data \<Rightarrow> (nat \<rightharpoonup> string) \<Rightarrow> nat \<times> client \<Rightarrow> event list" where
  "round_events throws messageData keyMap uc =
     (if \<not> addressed messageData keyMap (fst uc) then []
      else if throws (c_res (snd uc)) then
        [ClearTimeout (c_timeout (snd uc)), ResJsonThrew (c_res (snd uc)),
         Logged (LogError ''Failed to send to polling client'')]
      else
        [ClearTimeout (c_timeout (snd uc)),
         ResJson (c_res (snd uc)) [broadcast_message messageData (the (keyMap (fst uc)))],
         MarkDelivered (b_id messageData) (fst uc)])"

text \<open>The row \<open>createMessage\<close> stores for one entry of \<open>keys\<close>.\<close>

definition new_delivery :: "nat \<Rightarrow> key_item \<Rightarrow> delivery_row" where
  "new_delivery messageId k =
     \<lparr> d_message_id = messageId, d_user_id = k_userId k,
       encrypted_key = k_encryptedKey k, delivered = False \<rparr>"

text \<open>
  The events by which \<open>createMessage\<close> persists a message: the message row, one delivery
  row per entry of \<open>keys\<close>, the sender's own delivery marked.
\<close>

definition persist_events :: "nat \<Rightarrow> nat \<Rightarrow> key_item list \<Rightarrow> event list" where
  "persist_events messageId senderId keys =
     CreateMessage messageId # map (\<lambda>k. CreateDelivery messageId (k_userId k)) keys
       @ [MarkDelivered messageId senderId]"

text \<open>The events the broadcast of a message adds, on the clients waiting in \<open>sv\<close>.\<close>

definition broadcast_events ::
  "(nat \<Rightarrow> bool) \<Rightarrow> broadcast_data \<Rightarrow> key_item list \<Rightarrow> server \<Rightarrow> event list" where
  "broadcast_events throws messageData keys sv =
     concat (map (round_events throws messageData (build_keyMap keys)) (waitingClients sv))
       @ (if served_users throws messageData keys sv = [] then []
          else [Logged (LogInfo ''E2E broadcast sent'')])"

text \<open>An event that persists part of message \<open>messageId\<close> sent by \<open>senderId\<close>, and an
  event of an attempt to reach a waiting client.\<close>

fun is_persist_event :: "nat \<Rightarrow> nat \<Rightarrow> event \<Rightarrow> bool" where
  "is_persist_event messageId senderId (CreateMessage m) = (m = messageId)"
| "is_persist_event messageId senderId (CreateDelivery m u) = (m = messageId)"
| "is_persist_event messageId senderId (MarkDelivered m u) = (m = messageId \<and> u = senderId)"
| "is_persist_event messageId senderId e = False"

fun is_broadcast_attempt :: "event \<Rightarrow> bool" where
  "is_broadcast_attempt (ClearTimeout t) = True"
| "is_broadcast_attempt (ResJson r ms) = True"
| "is_broadcast_attempt (ResJsonThrew r) = True"
| "is_broadcast_attempt e = False"

section \<open>Message routes: poll and history (backend/src/routes/messages.js)\<close>




subsection \<open>Notions for stating what the send handler checks\<close>


text \<open>An entry of \<open>keys\<close> that is \<open>null\<close>, and an entry that is an object with a truthy
  \<open>userId\<close> and a truthy \<open>encryptedKey\<close>. Every other entry lacks one of the two.\<close>

definition entry_is_null :: "jsval \<Rightarrow> bool" where
  "entry_is_null k = (k = JNull \<or> k = JUndefined)"




section \<open>Browser cryptography module (frontend/src/utils/crypto.js)\<close>

subsection \<open>Hex strings and bytes\<close>

text \<open>\<open>parseInt(s, 16)\<close>: as \<open>parseInt\<close> above, with the radix fixed to 16.\<close>

definition parseInt16 :: "string \<Rightarrow> int option" where
  "parseInt16 s =
     (let s1 = dropWhile is_js_space s;
          sign = (if take 1 s1 = ''-'' then - 1 else (1 :: int));
          s2 = (if take 1 s1 = ''-'' \<or> take 1 s1 = ''+'' then drop 1 s1 else s1);
          s3 = (if take 2 s2 = ''0x'' \<or> take 2 s2 = ''0X'' then drop 2 s2 else s2);
          z = takeWhile (digit_in_radix 16) s3
      in if z = [] then None else Some (sign * int (digits_value 16 z)))"

text \<open>A byte is a number below 256. Storing into a \<open>Uint8Array\<close> takes \<open>NaN\<close> to 0 and
  any other number modulo 256.\<close>

definition ToUint8 :: "int option \<Rightarrow> nat" where
  "ToUint8 v = (case v of None \<Rightarrow> 0 | Some n \<Rightarrow> nat (n mod 256))"

definition substr :: "string \<Rightarrow> nat \<Rightarrow> nat \<Rightarrow> string" where
  "substr s start len = take len (drop start s)"

definition hexToBytes :: "string \<Rightarrow> nat list" where
  "hexToBytes hex =
     map (\<lambda>i. ToUint8 (parseInt16 (substr hex (i * 2) 2))) [0 ..< length hex div 2]"

definition hex_digit :: "nat \<Rightarrow> char" where
  "hex_digit d = (if d < 10 then char_of (48 + d) else char_of (87 + d))"

text \<open>\<open>b.toString(16)\<close> of a byte, and \<open>padStart(2, '0')\<close>.\<close>

definition toString16 :: "nat \<Rightarrow> string" where
  "toString16 b = (if b < 16 then [hex_digit b] else [hex_digit (b div 16), hex_digit (b mod 16)])"

definition padStart2 :: "string \<Rightarrow> string" where
  "padStart2 s = replicate (2 - length s) CHR ''0'' @ s"

definition bytesToHex :: "nat list \<Rightarrow> string" where
  "bytesToHex bytes = concat (map (\<lambda>b. padStart2 (toString16 b)) bytes)"

subsection \<open>The hybrid scheme over its primitives\<close>

text \<open>
  The ciphers are library calls, parameters here, and what they draw at random is an
  argument. \<open>AES_encrypt plaintext keyHex ivHex\<close> is CryptoJS's AES-256-CBC encryption
  with PKCS7 padding, from the hex key and the hex IV to the hex ciphertext, and
  \<open>AES_decrypt encryptedHex ivHex keyHex\<close> its decryption read as UTF-8;
  \<open>RSA_encrypt publicKeyPem data seed\<close> is the RSA-OAEP encryption to base64, with the
  padding's random seed, and \<open>RSA_decrypt privateKeyPem encryptedBase64\<close> its
  decryption. Each returns its result or throws.
\<close>

definition PBKDF2_ITERATIONS :: nat where
  "PBKDF2_ITERATIONS = 100000"

text \<open>\<open>CryptoJS.enc.Utf8.parse\<close> on a string of code units below 256: the bytes of its
  UTF-8 encoding, one for a code unit below 128 and two for any other.\<close>

definition utf8_bytes :: "string \<Rightarrow> nat list" where
  "utf8_bytes s =
     concat (map (\<lambda>c. if (of_char c :: nat) < 128 then [of_char c]
                        else [192 + of_char c div 64, 128 + of_char c mod 64]) s)"

text \<open>
  The key block of the HMAC that CryptoJS builds in \<open>HMAC.init\<close>, for SHA-256, whose block
  has 64 bytes: a key longer than the block is hashed first, and the key is then padded
  with zero bytes to the length of the block. The hash is a parameter.
\<close>

definition hmac_key_block :: "(nat list \<Rightarrow> nat list) \<Rightarrow> nat list \<Rightarrow> nat list" where
  "hmac_key_block SHA256 key =
     (let k = (if length key > 64 then SHA256 key else key)
      in k @ replicate (64 - length k) 0)"

text \<open>
  \<open>CryptoJS.PBKDF2(password, salt, {keySize, iterations, hasher})\<close> with the hasher
  SHA-256, the derived 256-bit key in hex. The password is parsed as UTF-8 and is the key
  of the HMAC, which reads it through its key block only; the rounds of the HMAC over the
  salt, from the key block to the derived key, are the parameter \<open>PBKDF2_rounds\<close>.
\<close>

definition PBKDF2 ::
  "(nat list \<Rightarrow> nat list) \<Rightarrow> (nat list \<Rightarrow> string \<Rightarrow> nat \<Rightarrow> string) \<Rightarrow>
   string \<Rightarrow> string \<Rightarrow> nat \<Rightarrow> string" where
  "PBKDF2 SHA256 PBKDF2_rounds password saltHex iterations =
     PBKDF2_rounds (hmac_key_block SHA256 (utf8_bytes password)) saltHex iterations"

definition aesEncrypt ::
  "(string \<Rightarrow> string \<Rightarrow> string \<Rightarrow> js_error + string) \<Rightarrow> string \<Rightarrow> string \<Rightarrow> string \<Rightarrow>
   js_error + string \<times> string" where
  "aesEncrypt AES_encrypt iv plaintext keyHex =
     (case AES_encrypt plaintext keyHex iv of
        Inl e \<Rightarrow> Inl e
      | Inr encrypted \<Rightarrow> Inr (encrypted, iv))"

definition aesDecrypt ::
  "(string \<Rightarrow> string \<Rightarrow> string \<Rightarrow> js_error + string) \<Rightarrow> string \<Rightarrow> string \<Rightarrow> string \<Rightarrow>
   js_error + string" where
  "aesDecrypt AES_decrypt encryptedHex ivHex keyHex = AES_decrypt encryptedHex ivHex keyHex"

text \<open>\<open>s.split(':')\<close>: the pieces of \<open>s\<close> between the colons; one piece, the string
  itself, when there is no colon.\<close>

fun split_colon :: "string \<Rightarrow> string list" where
  "split_colon [] = [[]]"
| "split_colon (c # cs) =
     (if c = CHR '':'' then [] # split_colon cs
      else (case split_colon cs of [] \<Rightarrow> [[c]] | p # ps \<Rightarrow> (c # p) # ps))"

text \<open>\<open>encryptPrivateKey\<close>; \<open>saltHex\<close> and \<open>iv\<close> are the hex forms of the salt and the IV
  it draws. The result is the ciphertext and the composite IV.\<close>

definition encryptPrivateKey ::
  "(nat list \<Rightarrow> nat list) \<Rightarrow> (nat list \<Rightarrow> string \<Rightarrow> nat \<Rightarrow> string) \<Rightarrow>
   (string \<Rightarrow> string \<Rightarrow> string \<Rightarrow> js_error + string) \<Rightarrow>
   string \<Rightarrow> string \<Rightarrow> string \<Rightarrow> string \<Rightarrow> js_error + string \<times> string" where
  "encryptPrivateKey SHA256 PBKDF2_rounds AES_encrypt saltHex iv privateKeyPem password =
     (let keyHex = PBKDF2 SHA256 PBKDF2_rounds password saltHex PBKDF2_ITERATIONS
      in case aesEncrypt AES_encrypt iv privateKeyPem keyHex of
           Inl e \<Rightarrow> Inl e
         | Inr r \<Rightarrow> Inr (fst r, saltHex @ '':'' @ snd r))"

text \<open>\<open>decryptPrivateKey\<close>; the first two pieces of the composite IV are the salt and
  the IV. With no second piece the IV is \<open>undefined\<close>, and parsing it as hex throws.\<close>

definition decryptPrivateKey ::
  "(nat list \<Rightarrow> nat list) \<Rightarrow> (nat list \<Rightarrow> string \<Rightarrow> nat \<Rightarrow> string) \<Rightarrow>
   (string \<Rightarrow> string \<Rightarrow> string \<Rightarrow> js_error + string) \<Rightarrow>
   string \<Rightarrow> string \<Rightarrow> string \<Rightarrow> js_error + string" where
  "decryptPrivateKey SHA256 PBKDF2_rounds AES_decrypt encryptedHex ivComposite password =
     (case split_colon ivComposite of
        [] \<Rightarrow> Inl (Error ''Cannot read properties of undefined (reading length)'' None)
      | saltHex # rest \<Rightarrow>
          (let keyHex = PBKDF2 SHA256 PBKDF2_rounds password saltHex PBKDF2_ITERATIONS
           in case rest of
                [] \<Rightarrow> Inl (Error ''Cannot read properties of undefined (reading length)'' None)
              | ivHex # others \<Rightarrow> aesDecrypt AES_decrypt encryptedHex ivHex keyHex))"

record recipient =
  rc_userId :: nat
  rc_publicKey :: string

text \<open>The loop of \<open>encryptMessageForRecipients\<close> over the recipients, from the \<open>n\<close>-th
  on; \<open>seed n\<close> is the random seed of the \<open>n\<close>-th RSA encryption. It stops where an
  encryption throws.\<close>

fun wrap_keys ::
  "(string \<Rightarrow> nat list \<Rightarrow> 's \<Rightarrow> js_error + string) \<Rightarrow> nat list \<Rightarrow> (nat \<Rightarrow> 's) \<Rightarrow> nat \<Rightarrow>
   recipient list \<Rightarrow> js_error + key_item list" where
  "wrap_keys RSA_encrypt aesKeyBytes seed n [] = Inr []"
| "wrap_keys RSA_encrypt aesKeyBytes seed n (r # rs) =
     (case RSA_encrypt (rc_publicKey r) aesKeyBytes (seed n) of
        Inl e \<Rightarrow> Inl e
      | Inr encryptedKey \<Rightarrow>
          (case wrap_keys RSA_encrypt aesKeyBytes seed (Suc n) rs of
             Inl e \<Rightarrow> Inl e
           | Inr ks \<Rightarrow> Inr (\<lparr> k_userId = rc_userId r, k_encryptedKey = encryptedKey \<rparr> # ks)))"

record encrypted_message =
  x_encryptedContent :: string
  x_iv :: string
  x_keys :: "key_item list"

text \<open>\<open>encryptMessageForRecipients\<close>; \<open>aesKeyHex\<close> is the key \<open>generateAESKey\<close> draws, 64
  lower-case hex digits, and \<open>iv\<close> the IV \<open>aesEncrypt\<close> draws.\<close>

definition encryptMessageForRecipients ::
  "(string \<Rightarrow> string \<Rightarrow> string \<Rightarrow> js_error + string) \<Rightarrow>
   (string \<Rightarrow> nat list \<Rightarrow> 's \<Rightarrow> js_error + string) \<Rightarrow>
   string \<Rightarrow> string \<Rightarrow> (nat \<Rightarrow> 's) \<Rightarrow> string \<Rightarrow> recipient list \<Rightarrow> js_error + encrypted_message" where
  "encryptMessageForRecipients AES_encrypt RSA_encrypt aesKeyHex iv seed plaintext recipients =
     (case aesEncrypt AES_encrypt iv plaintext aesKeyHex of
        Inl e \<Rightarrow> Inl e
      | Inr r \<Rightarrow>
          (case wrap_keys RSA_encrypt (hexToBytes aesKeyHex) seed 0 recipients of
             Inl e \<Rightarrow> Inl e
           | Inr ks \<Rightarrow>
               Inr \<lparr> x_encryptedContent = fst r, x_iv = snd r, x_keys = ks \<rparr>))"

definition decryptMessage ::
  "(string \<Rightarrow> string \<Rightarrow> string \<Rightarrow> js_error + string) \<Rightarrow> (string \<Rightarrow> string \<Rightarrow> js_error + nat list) \<Rightarrow>
   string \<Rightarrow> string \<Rightarrow> string \<Rightarrow> string \<Rightarrow> js_error + string" where
  "decryptMessage AES_decrypt RSA_decrypt encryptedContent iv encryptedKey privateKeyPem =
     (case RSA_decrypt privateKeyPem encryptedKey of
        Inl e \<Rightarrow> Inl e
      | Inr aesKeyBytes \<Rightarrow> aesDecrypt AES_decrypt encryptedContent iv (bytesToHex aesKeyBytes))"

text \<open>A string of lower-case hex digits, as CryptoJS writes keys, salts and IVs.\<close>

definition is_lower_hex :: "string \<Rightarrow> bool" where
  "is_lower_hex s = list_all (\<lambda>c. c \<in> set ''0123456789abcdef'') s"

section \<open>Fixtures of the message service tests (backend/tests)\<close>

text \<open>The three users and the keys of the tests' first message, sent by alice.\<close>

definition mockUsers :: "user_row list" where
  "mockUsers =
     [\<lparr> user_id = 1, username = ''alice'', password_hash = ''h1'', public_key = Some ''pk-alice'',
        encrypted_private_key = None, encrypted_private_key_iv = None \<rparr>,
      \<lparr> user_id = 2, username = ''bob'', password_hash = ''h2'', public_key = Some ''pk-bob'',
        encrypted_private_key = None, encrypted_private_key_iv = None \<rparr>,
      \<lparr> user_id = 3, username = ''charlie'', password_hash = ''h3'',
        public_key = Some ''pk-charlie'',
        encrypted_private_key = None, encrypted_private_key_iv = None \<rparr>]"

definition mockKeys :: "key_item list" where
  "mockKeys =
     [\<lparr> k_userId = 1, k_encryptedKey = ''enc-key-for-alice'' \<rparr>,
      \<lparr> k_userId = 2, k_encryptedKey = ''enc-key-for-bob'' \<rparr>,
      \<lparr> k_userId = 3, k_encryptedKey = ''enc-key-for-charlie'' \<rparr>]"

text \<open>A server with no message yet, and one where bob and charlie wait on a poll.\<close>

definition mockServer :: server where
  "mockServer =
     \<lparr> db = \<lparr> users = mockUsers, messages = [], message_deliveries = [] \<rparr>,
       waitingClients = [], trace = [] \<rparr>"

definition mockServerWaiting :: server where
  "mockServerWaiting =
     mockServer\<lparr> waitingClients :=
       [(2, \<lparr> c_res = 20, c_timeout = 200 \<rparr>), (3, \<lparr> c_res = 30, c_timeout = 300 \<rparr>)] \<rparr>"

text \<open>The state \<open>createMessage\<close> has reached when it calls the broadcast for alice's
  message on \<open>mockServerWaiting\<close>, and the data it passes.\<close>

definition mockPersisted :: server where
  "mockPersisted =
     \<lparr> db = \<lparr> users = mockUsers,
              messages = [\<lparr> msg_id = 1, sender_id = 1, encrypted_content = ''encrypted-content-hex'',
                            encryption_iv = ''iv-hex'', created_at = ''t1'' \<rparr>],
              message_deliveries =
                [\<lparr> d_message_id = 1, d_user_id = 1, encrypted_key = ''enc-key-for-alice'',
                   delivered = True \<rparr>,
                 \<lparr> d_message_id = 1, d_user_id = 2, encrypted_key = ''enc-key-for-bob'',
                   delivered = False \<rparr>,
                 \<lparr> d_message_id = 1, d_user_id = 3, encrypted_key = ''enc-key-for-charlie'',
                   delivered = False \<rparr>] \<rparr>,
       waitingClients =
         [(2, \<lparr> c_res = 20, c_timeout = 200 \<rparr>), (3, \<lparr> c_res = 30, c_timeout = 300 \<rparr>)],
       trace = [] \<rparr>"

definition mockBroadcastData :: broadcast_data where
  "mockBroadcastData =
     \<lparr> b_id = 1, b_senderId = 1, b_senderUsername = ''alice'',
       b_encryptedContent = ''encrypted-content-hex'', b_iv = ''iv-hex'', b_createdAt = ''t1'' \<rparr>"

section \<open>Messages hook (frontend/src/hooks/useMessages.js)\<close>

text \<open>A message as the chat shows it.\<close>

record chat_message =
  cm_id :: nat
  cm_senderId :: nat
  cm_senderUsername :: string
  cm_content :: string
  cm_createdAt :: string

text \<open>
  \<open>decryptMsg\<close>. \<open>decrypt_call\<close> is the call of \<open>decryptMessage\<close>, a parameter: it
  takes the ciphertext, the IV, the wrapped key and the private key read from the store
  (\<open>null\<close> when there is none) and returns the plaintext or throws.
\<close>

definition decryptMsg ::
  "(string \<Rightarrow> string \<Rightarrow> string \<Rightarrow> string option \<Rightarrow> js_error + string) \<Rightarrow>
   enc_message \<Rightarrow> string option \<Rightarrow> chat_message" where
  "decryptMsg decrypt_call msg privateKey =
     (case decrypt_call (em_encryptedContent msg) (em_iv msg) (em_encryptedKey msg) privateKey of
        Inr content \<Rightarrow>
          \<lparr> cm_id = em_id msg, cm_senderId = em_senderId msg,
            cm_senderUsername = em_senderUsername msg, cm_content = content,
            cm_createdAt = em_createdAt msg \<rparr>
      | Inl e \<Rightarrow>
          \<lparr> cm_id = em_id msg, cm_senderId = em_senderId msg,
            cm_senderUsername = em_senderUsername msg, cm_content = ''[Unable to decrypt]'',
            cm_createdAt = em_createdAt msg \<rparr>)"

text \<open>
  \<open>handleNewMessages\<close>: the batch is decrypted message by message, then the state
  updater appends the messages whose id is not shown yet. The result is the new list of
  shown messages.
\<close>

definition handleNewMessages ::
  "(string \<Rightarrow> string \<Rightarrow> string \<Rightarrow> string option \<Rightarrow> js_error + string) \<Rightarrow>
   localStorage \<Rightarrow> chat_message list \<Rightarrow> enc_message list \<Rightarrow> chat_message list" where
  "handleNewMessages decrypt_call st prev newMessages =
     (let privateKey = getPrivateKey st;
          decryptedNew = map (\<lambda>msg. decryptMsg decrypt_call msg privateKey) newMessages;
          existingIds = set (map cm_id prev);
          unique = filter (\<lambda>m. cm_id m \<notin> existingIds) decryptedNew
      in if length unique = 0 then prev else prev @ unique)"

section \<open>Properties\<close>

subsection \<open>Local credential store\<close>

lemma storage_keys_distinct:
  "TOKEN_KEY \<noteq> USER_KEY" "TOKEN_KEY \<noteq> PRIVATE_KEY" "USER_KEY \<noteq> PRIVATE_KEY"
  by (simp_all add: TOKEN_KEY_def USER_KEY_def PRIVATE_KEY_def)

lemma clearAuth_apply:
  "clearAuth st k = (if k = TOKEN_KEY \<or> k = USER_KEY \<or> k = PRIVATE_KEY then None else st k)"
  by (simp add: clearAuth_def removePrivateKey_def removeUser_def removeToken_def removeItem_def)

text \<open>
  C10. \<open>clearAuth\<close> empties exactly the slots \<open>messaging_auth_token\<close>, \<open>messaging_user\<close>
  and \<open>messaging_private_key\<close>: the keys of the store afterwards are the keys before
  without these three, every other key keeps its value, and \<open>getToken\<close>, \<open>getUser\<close> and
  \<open>getPrivateKey\<close> all return \<open>null\<close> afterwards, whatever \<open>JSON.parse\<close> does.
\<close>

theorem clearAuth_removes_exactly_three_slots:
  "dom (clearAuth st) =
     dom st - {''messaging_auth_token'', ''messaging_user'', ''messaging_private_key''}
   \<and> (\<forall>k. clearAuth st k =
          (if k = ''messaging_auth_token'' \<or> k = ''messaging_user'' \<or> k = ''messaging_private_key''
           then None else st k))
   \<and> getToken (clearAuth st) = None
   \<and> getUser JSON_parse (clearAuth st) = None
   \<and> getPrivateKey (clearAuth st) = None"
proof -
  have frame: "\<And>k. clearAuth st k =
      (if k = ''messaging_auth_token'' \<or> k = ''messaging_user'' \<or> k = ''messaging_private_key''
       then None else st k)"
    using clearAuth_apply [of st] by (simp add: TOKEN_KEY_def USER_KEY_def PRIVATE_KEY_def)
  have d: "dom (clearAuth st) =
      dom st - {''messaging_auth_token'', ''messaging_user'', ''messaging_private_key''}"
    unfolding dom_def using frame by auto
  have t: "getToken (clearAuth st) = None"
    by (simp add: getToken_def getItem_def clearAuth_apply)
  have u: "getUser JSON_parse (clearAuth st) = None"
    by (simp add: getUser_def getItem_def clearAuth_apply)
  have p: "getPrivateKey (clearAuth st) = None"
    by (simp add: getPrivateKey_def getItem_def clearAuth_apply)
  from d frame t u p show ?thesis by blast
qed

subsection \<open>Login\<close>

text \<open>
  What \<open>loginUser\<close> throws. For an unknown username, and for a password that
  \<open>bcrypt.compare\<close> finds not to match the stored hash, it throws the same error: status
  401, message \<open>Invalid username or password\<close>. When the password is a string it throws
  nothing else.
\<close>

lemma loginUser_unknown_or_mismatch:
  "(findUserByUsername accounts name = None \<longrightarrow>
      snd (loginUser hash_matches jwt_sign accounts name password) =
        Inl (Error ''Invalid username or password'' (Some 401)))
   \<and> (\<forall>u. findUserByUsername accounts name = Some u \<and>
          bcrypt_compare hash_matches password (password_hash u) = Inr False \<longrightarrow>
      snd (loginUser hash_matches jwt_sign accounts name password) =
        Inl (Error ''Invalid username or password'' (Some 401)))
   \<and> (\<forall>e s. password = JStr s \<and>
          snd (loginUser hash_matches jwt_sign accounts name password) = Inl e \<longrightarrow>
      e = Error ''Invalid username or password'' (Some 401))"
  by (auto simp: loginUser_def bcrypt_compare_def split: option.splits if_splits sum.splits)

lemma loginUser_non_string_password:
  assumes "findUserByUsername accounts name = Some u" and "\<forall>s. password \<noteq> JStr s"
  shows "loginUser hash_matches jwt_sign accounts name password =
     ([], Inl (Error ''data and hash must be strings'' None))"
  using assms by (cases password) (simp_all add: loginUser_def bcrypt_compare_def)

text \<open>
  C5. The claim fails when the password of the request is not a string, which the login
  route lets through: with the password \<open>123456\<close> (a number), \<open>loginUser\<close> for the
  existing user \<open>alice\<close> throws the error of \<open>bcrypt.compare\<close>, which has no status, so
  that the route hands it to the error middleware, and for the unknown user \<open>nobody\<close> it
  throws the 401 error. The two errors differ, so the reply tells whether the username
  exists: a 401 to such a request says that it was the username that was not found.
\<close>

theorem loginUser_non_string_password_reveals_user:
  "snd (loginUser (\<lambda>p h. h = p) (\<lambda>i n. n)
          [\<lparr> user_id = 1, username = ''alice'', password_hash = ''secret'', public_key = None,
              encrypted_private_key = None, encrypted_private_key_iv = None \<rparr>]
          ''alice'' (JNum 123456))
     = Inl (Error ''data and hash must be strings'' None)
   \<and> snd (loginUser (\<lambda>p h. h = p) (\<lambda>i n. n)
          [\<lparr> user_id = 1, username = ''alice'', password_hash = ''secret'', public_key = None,
              encrypted_private_key = None, encrypted_private_key_iv = None \<rparr>]
          ''nobody'' (JNum 123456))
     = Inl (Error ''Invalid username or password'' (Some 401))
   \<and> err_status (Error ''data and hash must be strings'' None) = None"
  by (simp add: loginUser_def findUserByUsername_def bcrypt_compare_def)

subsection \<open>History paging\<close>



























subsection \<open>Decrypting a batch\<close>

lemma decryptMsg_fields:
  "cm_id (decryptMsg dec msg pk) = em_id msg"
  "cm_senderId (decryptMsg dec msg pk) = em_senderId msg"
  "cm_senderUsername (decryptMsg dec msg pk) = em_senderUsername msg"
  "cm_createdAt (decryptMsg dec msg pk) = em_createdAt msg"
  by (simp_all add: decryptMsg_def split: sum.splits)

lemma decryptMsg_content:
  "cm_content (decryptMsg dec msg pk) =
     (case dec (em_encryptedContent msg) (em_iv msg) (em_encryptedKey msg) pk of
        Inl e \<Rightarrow> ''[Unable to decrypt]'' | Inr c \<Rightarrow> c)"
  by (simp add: decryptMsg_def split: sum.splits)

lemma handleNewMessages_eq:
  "handleNewMessages dec st prev msgs =
     prev @ filter (\<lambda>m. cm_id m \<notin> set (map cm_id prev))
              (map (\<lambda>msg. decryptMsg dec msg (getPrivateKey st)) msgs)"
  by (simp add: handleNewMessages_def Let_def)

text \<open>
  C8. The chat gets, after the messages it already shows, one message for every message
  of the batch whose id it does not show yet, in the batch's order, and each of them is
  \<open>decryptMsg\<close> of that one batch message: it keeps the id, the sender and the time, its
  content is \<open>[Unable to decrypt]\<close> when \<open>decryptMessage\<close> throws on this message and
  the plaintext when it returns. So a message that fails to decrypt changes nothing for
  the others.
\<close>

theorem decryption_failure_isolated:
  "handleNewMessages dec st prev msgs =
     prev @ map (\<lambda>msg. decryptMsg dec msg (getPrivateKey st))
              (filter (\<lambda>msg. em_id msg \<notin> set (map cm_id prev)) msgs)
   \<and> (\<forall>msg pk. cm_id (decryptMsg dec msg pk) = em_id msg
         \<and> cm_senderId (decryptMsg dec msg pk) = em_senderId msg
         \<and> cm_senderUsername (decryptMsg dec msg pk) = em_senderUsername msg
         \<and> cm_createdAt (decryptMsg dec msg pk) = em_createdAt msg
         \<and> (\<forall>e. dec (em_encryptedContent msg) (em_iv msg) (em_encryptedKey msg) pk = Inl e \<longrightarrow>
               cm_content (decryptMsg dec msg pk) = ''[Unable to decrypt]'')
         \<and> (\<forall>c. dec (em_encryptedContent msg) (em_iv msg) (em_encryptedKey msg) pk = Inr c \<longrightarrow>
               cm_content (decryptMsg dec msg pk) = c))"
proof -
  have "filter (\<lambda>m. cm_id m \<notin> set (map cm_id prev))
              (map (\<lambda>msg. decryptMsg dec msg (getPrivateKey st)) msgs)
      = map (\<lambda>msg. decryptMsg dec msg (getPrivateKey st))
              (filter (\<lambda>msg. em_id msg \<notin> set (map cm_id prev)) msgs)"
    by (induction msgs) (simp_all add: decryptMsg_fields)
  then have a: "handleNewMessages dec st prev msgs =
     prev @ map (\<lambda>msg. decryptMsg dec msg (getPrivateKey st))
              (filter (\<lambda>msg. em_id msg \<notin> set (map cm_id prev)) msgs)"
    by (simp add: handleNewMessages_eq)
  show ?thesis
    using a by (simp add: decryptMsg_fields decryptMsg_content)
qed

theorem decryption_failure_isolated_witness:
  "map cm_content
     (handleNewMessages
        (\<lambda>c iv k pk. if k = ''bad'' then Inl (Error ''OperationError'' None) else Inr c)
        Map.empty []
        [\<lparr> em_id = 1, em_senderId = 2, em_senderUsername = ''bob'', em_encryptedContent = ''hello'',
           em_iv = ''i1'', em_encryptedKey = ''k1'', em_createdAt = ''t1'' \<rparr>,
         \<lparr> em_id = 2, em_senderId = 2, em_senderUsername = ''bob'', em_encryptedContent = ''lost'',
           em_iv = ''i2'', em_encryptedKey = ''bad'', em_createdAt = ''t2'' \<rparr>,
         \<lparr> em_id = 3, em_senderId = 2, em_senderUsername = ''bob'', em_encryptedContent = ''world'',
           em_iv = ''i3'', em_encryptedKey = ''k3'', em_createdAt = ''t3'' \<rparr>])
   = [''hello'', ''[Unable to decrypt]'', ''world'']"
proof -
  let ?dec = "\<lambda>c iv k pk :: string option.
      if k = ''bad'' then Inl (Error ''OperationError'' None) else (Inr c :: js_error + string)"
  let ?m1 = "\<lparr> em_id = 1, em_senderId = 2, em_senderUsername = ''bob'',
      em_encryptedContent = ''hello'', em_iv = ''i1'', em_encryptedKey = ''k1'',
      em_createdAt = ''t1'' \<rparr>"
  let ?m2 = "\<lparr> em_id = 2, em_senderId = 2, em_senderUsername = ''bob'',
      em_encryptedContent = ''lost'', em_iv = ''i2'', em_encryptedKey = ''bad'',
      em_createdAt = ''t2'' \<rparr>"
  let ?m3 = "\<lparr> em_id = 3, em_senderId = 2, em_senderUsername = ''bob'',
      em_encryptedContent = ''world'', em_iv = ''i3'', em_encryptedKey = ''k3'',
      em_createdAt = ''t3'' \<rparr>"
  note t = decryption_failure_isolated [of ?dec Map.empty "[]" "[?m1, ?m2, ?m3]"]
  from t have shown: "handleNewMessages ?dec Map.empty [] [?m1, ?m2, ?m3] =
      map (\<lambda>msg. decryptMsg ?dec msg (getPrivateKey Map.empty)) [?m1, ?m2, ?m3]"
    by simp
  from t have ok: "\<And>msg pk c.
      ?dec (em_encryptedContent msg) (em_iv msg) (em_encryptedKey msg) pk = Inr c \<Longrightarrow>
      cm_content (decryptMsg ?dec msg pk) = c"
    by blast
  from t have bad: "\<And>msg pk e.
      ?dec (em_encryptedContent msg) (em_iv msg) (em_encryptedKey msg) pk = Inl e \<Longrightarrow>
      cm_content (decryptMsg ?dec msg pk) = ''[Unable to decrypt]''"
    by blast
  have 1: "cm_content (decryptMsg ?dec ?m1 (getPrivateKey Map.empty)) = ''hello''"
    by (rule ok) simp
  have 2: "cm_content (decryptMsg ?dec ?m2 (getPrivateKey Map.empty)) = ''[Unable to decrypt]''"
    by (rule bad) simp
  have 3: "cm_content (decryptMsg ?dec ?m3 (getPrivateKey Map.empty)) = ''world''"
    by (rule ok) simp
  from shown 1 2 3 show ?thesis by simp
qed

subsection \<open>The send handler\<close>


lemma js_get_not_null:
  "\<not> entry_is_null k \<Longrightarrow> \<exists>v. js_get k name = Inr v"
  by (cases k) (simp_all add: entry_is_null_def)
















subsection \<open>The broadcast to waiting clients\<close>

lemma emit_simps [simp]:
  "db (emit e sv) = db sv" "waitingClients (emit e sv) = waitingClients sv"
  "trace (emit e sv) = trace sv @ [e]"
  by (simp_all add: emit_def)

lemma call_markDelivered_simps [simp]:
  "db (call_markDelivered m u sv) = db_markDelivered m u (db sv)"
  "waitingClients (call_markDelivered m u sv) = waitingClients sv"
  "trace (call_markDelivered m u sv) = trace sv @ [MarkDelivered m u]"
  by (simp_all add: call_markDelivered_def)

lemma db_markDelivered_simps [simp]:
  "users (db_markDelivered m u d) = users d"
  "messages (db_markDelivered m u d) = messages d"
  "message_deliveries (db_markDelivered m u d) = mark_pairs {(m, u)} (message_deliveries d)"
  by (simp_all add: db_markDelivered_def mark_pairs_def)

lemma mark_pairs_empty [simp]: "mark_pairs {} rows = rows"
  by (simp add: mark_pairs_def)

lemma mark_pairs_twice:
  "mark_pairs T (mark_pairs S rows) = mark_pairs (S \<union> T) rows"
  by (induction rows) (auto simp: mark_pairs_def)


lemma length_mark_pairs [simp]: "length (mark_pairs S rows) = length rows"
  by (simp add: mark_pairs_def)

lemma broadcast_step_char:
  "broadcast_step throws md km uc (sv, n) =
     (sv\<lparr> db := (db sv)\<lparr> message_deliveries :=
               mark_pairs (if served throws md km uc then {(b_id md, fst uc)} else {})
                 (message_deliveries (db sv)) \<rparr>,
          waitingClients := (if addressed md km (fst uc) then map_delete (fst uc) (waitingClients sv)
                             else waitingClients sv),
          trace := trace sv @ round_events throws md km uc \<rparr>,
      if served throws md km uc then n + 1 else n)"
  by (cases uc)
     (auto simp: served_def addressed_def round_events_def broadcast_message_def Let_def
        emit_def call_markDelivered_def db_markDelivered_def mark_pairs_def
        split: option.splits)


lemma map_delete_filter:
  "map_delete k (filter P xs) = filter (\<lambda>kv. P kv \<and> fst kv \<noteq> k) xs"
  by (induction xs) (auto simp: map_delete_def)

lemma broadcast_fold_char:
  "db (fst (fold (broadcast_step throws md km) ws (sv, n))) =
     (db sv)\<lparr> message_deliveries :=
        mark_pairs (Pair (b_id md) ` set (map fst (filter (served throws md km) ws)))
          (message_deliveries (db sv)) \<rparr>
   \<and> waitingClients (fst (fold (broadcast_step throws md km) ws (sv, n))) =
       filter (\<lambda>kv. \<not> (fst kv \<in> set (map fst ws) \<and> addressed md km (fst kv))) (waitingClients sv)
   \<and> trace (fst (fold (broadcast_step throws md km) ws (sv, n))) =
       trace sv @ concat (map (round_events throws md km) ws)
   \<and> snd (fold (broadcast_step throws md km) ws (sv, n)) =
       n + length (filter (served throws md km) ws)"
proof (induction ws arbitrary: sv n)
  case Nil
  show ?case by simp
next
  case (Cons uc ws)
  let ?sv1 = "sv\<lparr> db := (db sv)\<lparr> message_deliveries :=
               mark_pairs (if served throws md km uc then {(b_id md, fst uc)} else {})
                 (message_deliveries (db sv)) \<rparr>,
          waitingClients := (if addressed md km (fst uc) then map_delete (fst uc) (waitingClients sv)
                             else waitingClients sv),
          trace := trace sv @ round_events throws md km uc \<rparr>"
  let ?n1 = "if served throws md km uc then n + 1 else n"
  have step: "fold (broadcast_step throws md km) (uc # ws) (sv, n) =
      fold (broadcast_step throws md km) ws (?sv1, ?n1)"
    by (simp add: broadcast_step_char del: broadcast_step.simps)
  note IH = Cons.IH [of ?sv1 ?n1]
  from IH have IHd: "db (fst (fold (broadcast_step throws md km) ws (?sv1, ?n1))) =
     (db ?sv1)\<lparr> message_deliveries :=
        mark_pairs (Pair (b_id md) ` set (map fst (filter (served throws md km) ws)))
          (message_deliveries (db ?sv1)) \<rparr>"
    by blast
  from IH have IHw: "waitingClients (fst (fold (broadcast_step throws md km) ws (?sv1, ?n1))) =
       filter (\<lambda>kv. \<not> (fst kv \<in> set (map fst ws) \<and> addressed md km (fst kv)))
         (waitingClients ?sv1)"
    by blast
  from IH have IHt: "trace (fst (fold (broadcast_step throws md km) ws (?sv1, ?n1))) =
       trace ?sv1 @ concat (map (round_events throws md km) ws)"
    by blast
  from IH have IHc: "snd (fold (broadcast_step throws md km) ws (?sv1, ?n1)) =
       ?n1 + length (filter (served throws md km) ws)"
    by blast
  have sets: "(if served throws md km uc then {(b_id md, fst uc)} else {}) \<union>
        Pair (b_id md) ` set (map fst (filter (served throws md km) ws))
      = Pair (b_id md) ` set (map fst (filter (served throws md km) (uc # ws)))"
    by auto
  have d: "db (fst (fold (broadcast_step throws md km) (uc # ws) (sv, n))) =
     (db sv)\<lparr> message_deliveries :=
        mark_pairs (Pair (b_id md) ` set (map fst (filter (served throws md km) (uc # ws))))
          (message_deliveries (db sv)) \<rparr>"
    unfolding step IHd sets [symmetric] by (simp add: mark_pairs_twice)
  have w: "waitingClients (fst (fold (broadcast_step throws md km) (uc # ws) (sv, n))) =
       filter (\<lambda>kv. \<not> (fst kv \<in> set (map fst (uc # ws)) \<and> addressed md km (fst kv)))
         (waitingClients sv)"
    unfolding step IHw by (auto simp: map_delete_def intro!: filter_cong)
  have t: "trace (fst (fold (broadcast_step throws md km) (uc # ws) (sv, n))) =
       trace sv @ concat (map (round_events throws md km) (uc # ws))"
    unfolding step IHt by simp
  have c: "snd (fold (broadcast_step throws md km) (uc # ws) (sv, n)) =
       n + length (filter (served throws md km) (uc # ws))"
    unfolding step IHc by simp
  from d w t c show ?case by blast
qed


lemma broadcast_db:
  "db (broadcastToClientsE2E throws md keys sv) =
     (db sv)\<lparr> message_deliveries :=
        mark_pairs (Pair (b_id md) ` set (served_users throws md keys sv))
          (message_deliveries (db sv)) \<rparr>"
  using broadcast_fold_char [of throws md "build_keyMap keys" "waitingClients sv" sv 0]
  by (simp add: broadcastToClientsE2E_def Let_def served_users_def)

lemma broadcast_waiting:
  "waitingClients (broadcastToClientsE2E throws md keys sv) =
     filter (\<lambda>kv. \<not> addressed md (build_keyMap keys) (fst kv)) (waitingClients sv)"
proof -
  have "filter (\<lambda>kv. \<not> (fst kv \<in> set (map fst (waitingClients sv)) \<and>
                 addressed md (build_keyMap keys) (fst kv))) (waitingClients sv)
      = filter (\<lambda>kv. \<not> addressed md (build_keyMap keys) (fst kv)) (waitingClients sv)"
    by (rule filter_cong) auto
  then show ?thesis
    using broadcast_fold_char [of throws md "build_keyMap keys" "waitingClients sv" sv 0]
    by (simp add: broadcastToClientsE2E_def Let_def)
qed

lemma broadcast_trace:
  "trace (broadcastToClientsE2E throws md keys sv) =
     trace sv @ concat (map (round_events throws md (build_keyMap keys)) (waitingClients sv))
       @ (if served_users throws md keys sv = [] then []
          else [Logged (LogInfo ''E2E broadcast sent'')])"
  using broadcast_fold_char [of throws md "build_keyMap keys" "waitingClients sv" sv 0]
  by (simp add: broadcastToClientsE2E_def Let_def served_users_def)

lemma new_events_append [simp]:
  "trace sv' = trace sv @ evs \<Longrightarrow> new_events sv sv' = evs"
  by (simp add: new_events_def)

lemma MarkDelivered_in_round:
  "MarkDelivered m x \<in> set (round_events throws md km uc) \<Longrightarrow>
   m = b_id md \<and> x = fst uc \<and> served throws md km uc"
  by (auto simp: round_events_def served_def split: if_splits)

lemma ResJson_in_round:
  "served throws md km uc \<Longrightarrow>
   ResJson (c_res (snd uc)) [broadcast_message md (the (km (fst uc)))]
     \<in> set (round_events throws md km uc)"
  by (auto simp: round_events_def served_def)

lemma distinct_fst_unique:
  "distinct (map fst xs) \<Longrightarrow> (k, a) \<in> set xs \<Longrightarrow> (k, b) \<in> set xs \<Longrightarrow> a = b"
  by (induction xs) (auto simp: rev_image_eqI)

lemma mark_pairs_other_user:
  "\<forall>m. (m, u) \<notin> S \<Longrightarrow>
   filter (\<lambda>d. d_user_id d = u) (mark_pairs S rows) = filter (\<lambda>d. d_user_id d = u) rows"
  by (induction rows) (auto simp: mark_pairs_def)

lemma join_delivery_cong:
  "users store' = users store \<Longrightarrow> messages store' = messages store \<Longrightarrow>
   join_delivery store' = join_delivery store"
  by (rule ext) (simp add: join_delivery_def split: option.splits)

lemma undelivered_via_user_rows:
  "db_getUndeliveredForUserE2E u store =
     concat (map (join_delivery store)
       (filter (\<lambda>d. \<not> delivered d) (filter (\<lambda>d. d_user_id d = u) (message_deliveries store))))"
  by (simp add: db_getUndeliveredForUserE2E_def conj_commute)

lemma undelivered_cong:
  assumes "users store' = users store" "messages store' = messages store"
    and "filter (\<lambda>d. d_user_id d = u) (message_deliveries store')
       = filter (\<lambda>d. d_user_id d = u) (message_deliveries store)"
  shows "db_getUndeliveredForUserE2E u store' = db_getUndeliveredForUserE2E u store"
  using assms join_delivery_cong [OF assms(1,2)]
  by (simp add: undelivered_via_user_rows)

lemma getMessagesForUser_result:
  "fst (getMessagesForUser u sv) = map shape_message (db_getUndeliveredForUserE2E u (db sv))"
  by (simp add: getMessagesForUser_def Let_def)

text \<open>
  C9. Take a waiting client that the broadcast addresses (its user is not the sender and
  \<open>keys\<close> has a non-empty wrapped key for the user) and whose \<open>res.json\<close> throws. After
  \<open>broadcastToClientsE2E\<close> the user is no longer in \<open>waitingClients\<close>, \<open>markDelivered\<close>
  was not called for the message and this user, the user's delivery rows are as they
  were, and the user's next poll returns what it would have returned before the
  broadcast. The rows the broadcast marks are those of the message and of the served
  users, and every served user's response was sent the message without a throw.
\<close>

theorem broadcast_failed_client_not_marked:
  assumes dist: "distinct (map fst (waitingClients sv))"
    and waiting: "(u, cl) \<in> set (waitingClients sv)"
    and not_sender: "u \<noteq> b_senderId md"
    and key: "build_keyMap keys u = Some k" "k \<noteq> []"
    and fails: "throws (c_res cl)"
  shows "u \<notin> set (map fst (waitingClients (broadcastToClientsE2E throws md keys sv)))
    \<and> MarkDelivered (b_id md) u \<notin> set (new_events sv (broadcastToClientsE2E throws md keys sv))
    \<and> filter (\<lambda>d. d_user_id d = u) (message_deliveries (db (broadcastToClientsE2E throws md keys sv)))
        = filter (\<lambda>d. d_user_id d = u) (message_deliveries (db sv))
    \<and> fst (getMessagesForUser u (broadcastToClientsE2E throws md keys sv))
        = fst (getMessagesForUser u sv)
    \<and> message_deliveries (db (broadcastToClientsE2E throws md keys sv))
        = mark_pairs (Pair (b_id md) ` set (served_users throws md keys sv))
            (message_deliveries (db sv))
    \<and> (\<forall>uc \<in> set (waitingClients sv).
          fst uc \<in> set (served_users throws md keys sv) \<longrightarrow>
          \<not> throws (c_res (snd uc)) \<and>
          ResJson (c_res (snd uc))
            [broadcast_message md (the (build_keyMap keys (fst uc)))]
            \<in> set (new_events sv (broadcastToClientsE2E throws md keys sv)))"
proof -
  let ?sv' = "broadcastToClientsE2E throws md keys sv"
  let ?km = "build_keyMap keys"
  have addr: "addressed md ?km u"
    using not_sender key by (simp add: addressed_def)
  have ev: "new_events sv ?sv' =
      concat (map (round_events throws md ?km) (waitingClients sv))
        @ (if served_users throws md keys sv = [] then []
           else [Logged (LogInfo ''E2E broadcast sent'')])"
    by (rule new_events_append) (simp add: broadcast_trace)
  have unique: "\<And>uc. uc \<in> set (waitingClients sv) \<Longrightarrow> fst uc = u \<Longrightarrow> uc = (u, cl)"
    using distinct_fst_unique [OF dist _ waiting] by (metis prod.collapse)
  have not_served: "u \<notin> set (served_users throws md keys sv)"
  proof
    assume "u \<in> set (served_users throws md keys sv)"
    then obtain uc where "uc \<in> set (waitingClients sv)" "fst uc = u" "served throws md ?km uc"
      by (auto simp: served_users_def)
    with unique [of uc] fails show False by (simp add: served_def)
  qed
  have 1: "u \<notin> set (map fst (waitingClients ?sv'))"
    using addr by (auto simp: broadcast_waiting)
  have 2: "MarkDelivered (b_id md) u \<notin> set (new_events sv ?sv')"
  proof
    assume "MarkDelivered (b_id md) u \<in> set (new_events sv ?sv')"
    then obtain uc where uc: "uc \<in> set (waitingClients sv)"
        "MarkDelivered (b_id md) u \<in> set (round_events throws md ?km uc)"
      by (auto simp: ev split: if_splits)
    from MarkDelivered_in_round [OF uc(2)] have "fst uc = u" "served throws md ?km uc"
      by simp_all
    with uc(1) not_served show False by (auto simp: served_users_def)
  qed
  have 3: "filter (\<lambda>d. d_user_id d = u) (message_deliveries (db ?sv'))
        = filter (\<lambda>d. d_user_id d = u) (message_deliveries (db sv))"
    using not_served by (simp add: broadcast_db mark_pairs_other_user image_iff)
  have 4: "fst (getMessagesForUser u ?sv') = fst (getMessagesForUser u sv)"
    unfolding getMessagesForUser_result
    using undelivered_cong [of "db ?sv'" "db sv" u] 3 by (simp add: broadcast_db)
  have 5: "message_deliveries (db ?sv')
        = mark_pairs (Pair (b_id md) ` set (served_users throws md keys sv))
            (message_deliveries (db sv))"
    by (simp add: broadcast_db)
  have 6: "\<forall>uc \<in> set (waitingClients sv).
          fst uc \<in> set (served_users throws md keys sv) \<longrightarrow>
          \<not> throws (c_res (snd uc)) \<and>
          ResJson (c_res (snd uc)) [broadcast_message md (the (?km (fst uc)))]
            \<in> set (new_events sv ?sv')"
  proof (intro ballI impI)
    fix uc assume uc: "uc \<in> set (waitingClients sv)"
      and s: "fst uc \<in> set (served_users throws md keys sv)"
    from s obtain uc' where uc': "uc' \<in> set (waitingClients sv)" "fst uc' = fst uc"
        "served throws md ?km uc'"
      by (auto simp: served_users_def)
    have "uc' = uc"
      using distinct_fst_unique [OF dist, of "fst uc" "snd uc'" "snd uc"] uc uc'(1,2)
      by (metis prod.collapse)
    with uc'(3) have sv: "served throws md ?km uc" by simp
    then have "\<not> throws (c_res (snd uc))" by (simp add: served_def)
    moreover have "ResJson (c_res (snd uc)) [broadcast_message md (the (?km (fst uc)))]
            \<in> set (new_events sv ?sv')"
      using ResJson_in_round [OF sv] uc by (auto simp: ev)
    ultimately show "\<not> throws (c_res (snd uc)) \<and>
          ResJson (c_res (snd uc)) [broadcast_message md (the (?km (fst uc)))]
            \<in> set (new_events sv ?sv')"
      by simp
  qed
  from 1 2 3 4 5 6 show ?thesis by blast
qed

theorem broadcast_failed_client_not_marked_witness:
  "2 \<notin> set (map fst (waitingClients
        (broadcastToClientsE2E (\<lambda>r. r = 20) mockBroadcastData mockKeys mockPersisted)))
   \<and> MarkDelivered 1 2 \<notin> set (new_events mockPersisted
        (broadcastToClientsE2E (\<lambda>r. r = 20) mockBroadcastData mockKeys mockPersisted))
   \<and> filter (\<lambda>d. d_user_id d = 2) (message_deliveries (db
        (broadcastToClientsE2E (\<lambda>r. r = 20) mockBroadcastData mockKeys mockPersisted)))
      = [\<lparr> d_message_id = 1, d_user_id = 2, encrypted_key = ''enc-key-for-bob'',
           delivered = False \<rparr>]
   \<and> map em_encryptedKey (fst (getMessagesForUser 2
        (broadcastToClientsE2E (\<lambda>r. r = 20) mockBroadcastData mockKeys mockPersisted)))
      = [''enc-key-for-bob'']"
proof -
  let ?throws = "\<lambda>r :: nat. r = 20"
  have dist: "distinct (map fst (waitingClients mockPersisted))"
    by (simp add: mockPersisted_def)
  have waiting: "(2, \<lparr> c_res = 20, c_timeout = 200 \<rparr>) \<in> set (waitingClients mockPersisted)"
    by (simp add: mockPersisted_def)
  have not_sender: "2 \<noteq> b_senderId mockBroadcastData"
    by (simp add: mockBroadcastData_def)
  have key: "build_keyMap mockKeys 2 = Some ''enc-key-for-bob''"
    by (simp add: build_keyMap_def mockKeys_def)
  have nonempty: "''enc-key-for-bob'' \<noteq> []"
    by simp
  have fails: "?throws (c_res \<lparr> c_res = 20, c_timeout = 200 \<rparr>)"
    by simp
  note t = broadcast_failed_client_not_marked
    [OF dist waiting not_sender key nonempty, of ?throws, OF fails]
  have rows: "filter (\<lambda>d. d_user_id d = 2) (message_deliveries (db mockPersisted))
      = [\<lparr> d_message_id = 1, d_user_id = 2, encrypted_key = ''enc-key-for-bob'',
           delivered = False \<rparr>]"
    by (simp add: mockPersisted_def)
  have poll: "map em_encryptedKey (fst (getMessagesForUser 2 mockPersisted))
      = [''enc-key-for-bob'']"
    by (simp add: getMessagesForUser_result db_getUndeliveredForUserE2E_def join_delivery_def
        shape_message_def mockPersisted_def mockUsers_def)
  have bid: "b_id mockBroadcastData = 1"
    by (simp add: mockBroadcastData_def)
  let ?sv' = "broadcastToClientsE2E ?throws mockBroadcastData mockKeys mockPersisted"
  from t have 1: "2 \<notin> set (map fst (waitingClients ?sv'))"
    by blast
  from t have 2: "MarkDelivered (b_id mockBroadcastData) 2 \<notin> set (new_events mockPersisted ?sv')"
    by blast
  from t have 3: "filter (\<lambda>d. d_user_id d = 2) (message_deliveries (db ?sv'))
      = filter (\<lambda>d. d_user_id d = 2) (message_deliveries (db mockPersisted))"
    by blast
  from t have 4: "fst (getMessagesForUser 2 ?sv') = fst (getMessagesForUser 2 mockPersisted)"
    by blast
  from 1 2 3 4 rows poll bid show ?thesis
    by simp
qed

subsection \<open>Creating a message\<close>

lemma create_deliveries_char:
  "\<exists>n \<le> length ks.
     trace (snd (create_deliveries mid ks sv)) =
       trace sv @ map (\<lambda>k. CreateDelivery mid (k_userId k)) (take n ks)
     \<and> db (snd (create_deliveries mid ks sv)) =
       (db sv)\<lparr> message_deliveries :=
          message_deliveries (db sv) @ map (new_delivery mid) (take n ks) \<rparr>
     \<and> waitingClients (snd (create_deliveries mid ks sv)) = waitingClients sv
     \<and> (case fst (create_deliveries mid ks sv) of Inl e \<Rightarrow> n < length ks | Inr u \<Rightarrow> n = length ks)"
proof (induction ks arbitrary: sv)
  case Nil
  show ?case by simp
next
  case (Cons k ks)
  show ?case
  proof (cases "db_createDeliveryWithKey mid (k_userId k) (k_encryptedKey k) (db sv)")
    case (Inl e)
    then have "create_deliveries mid (k # ks) sv = (Inl e, sv)" by simp
    then show ?thesis by (intro exI [of _ 0]) simp
  next
    case (Inr db')
    then have db': "db' = (db sv)\<lparr> message_deliveries :=
        message_deliveries (db sv) @ [new_delivery mid k] \<rparr>"
      by (simp add: db_createDeliveryWithKey_def new_delivery_def split: if_splits)
    let ?sv1 = "emit (CreateDelivery mid (k_userId k)) (sv\<lparr> db := db' \<rparr>)"
    have step: "create_deliveries mid (k # ks) sv = create_deliveries mid ks ?sv1"
      using Inr by simp
    from Cons.IH [of ?sv1] obtain n where n: "n \<le> length ks"
      "trace (snd (create_deliveries mid ks ?sv1)) =
         trace ?sv1 @ map (\<lambda>k. CreateDelivery mid (k_userId k)) (take n ks)"
      "db (snd (create_deliveries mid ks ?sv1)) =
         (db ?sv1)\<lparr> message_deliveries :=
            message_deliveries (db ?sv1) @ map (new_delivery mid) (take n ks) \<rparr>"
      "waitingClients (snd (create_deliveries mid ks ?sv1)) = waitingClients ?sv1"
      "(case fst (create_deliveries mid ks ?sv1) of Inl e \<Rightarrow> n < length ks | Inr u \<Rightarrow> n = length ks)"
      by blast
    show ?thesis
      unfolding step
      using n by (intro exI [of _ "Suc n"]) (auto simp: db' split: sum.splits)
  qed
qed


lemma served_users_waiting:
  "waitingClients sv' = waitingClients sv \<Longrightarrow>
   served_users throws md keys sv' = served_users throws md keys sv"
  by (simp add: served_users_def)

lemma broadcast_events_waiting:
  "waitingClients sv' = waitingClients sv \<Longrightarrow>
   broadcast_events throws md keys sv' = broadcast_events throws md keys sv"
  by (simp add: broadcast_events_def served_users_def)

lemma broadcast_trace_events:
  "trace (broadcastToClientsE2E throws md keys sv) = trace sv @ broadcast_events throws md keys sv"
  by (simp add: broadcast_trace broadcast_events_def)

lemma createMessage_returns:
  assumes "fst (createMessage throws now sid sname c iv keys sv) = Inr r"
  defines "mid \<equiv> fresh_message_id (db sv)"
  defines "bd \<equiv> \<lparr> b_id = mid, b_senderId = sid, b_senderUsername = sname,
                   b_encryptedContent = c, b_iv = iv, b_createdAt = now \<rparr>"
  shows "r = \<lparr> r_id = mid, r_senderId = sid, r_senderUsername = sname, r_createdAt = now \<rparr>"
    and "trace (snd (createMessage throws now sid sname c iv keys sv)) =
           trace sv @ persist_events mid sid keys
             @ Logged (LogInfo ''Message sent (E2E encrypted)'') # broadcast_events throws bd keys sv"
    and "messages (db (snd (createMessage throws now sid sname c iv keys sv))) =
           messages (db sv) @ [\<lparr> msg_id = mid, sender_id = sid, encrypted_content = c,
                                 encryption_iv = iv, created_at = now \<rparr>]"
    and "message_deliveries (db (snd (createMessage throws now sid sname c iv keys sv))) =
           mark_pairs (insert (mid, sid) (Pair mid ` set (served_users throws bd keys sv)))
             (message_deliveries (db sv) @ map (new_delivery mid) keys)"
    and "users (db (snd (createMessage throws now sid sname c iv keys sv))) = users (db sv)"
proof -
  let ?m = "\<lparr> msg_id = mid, sender_id = sid, encrypted_content = c,
              encryption_iv = iv, created_at = now \<rparr>"
  let ?sv1 = "emit (CreateMessage mid) (sv\<lparr> db := (db sv)\<lparr> messages := messages (db sv) @ [?m] \<rparr> \<rparr>)"
  let ?R = "create_deliveries mid keys ?sv1"
  have created: "db_createMessage now sid c iv (db sv) = (?m, (db sv)\<lparr> messages := messages (db sv) @ [?m] \<rparr>)"
    by (simp add: db_createMessage_def mid_def Let_def)
  from assms(1) obtain u where ok: "fst ?R = Inr u"
    by (auto simp: createMessage_def created Let_def split: sum.splits)
  from create_deliveries_char [of keys mid ?sv1] ok
  have R: "trace (snd ?R) = trace ?sv1 @ map (\<lambda>k. CreateDelivery mid (k_userId k)) keys"
    "db (snd ?R) = (db ?sv1)\<lparr> message_deliveries :=
          message_deliveries (db ?sv1) @ map (new_delivery mid) keys \<rparr>"
    "waitingClients (snd ?R) = waitingClients ?sv1"
    by auto
  let ?sv4 = "emit (Logged (LogInfo ''Message sent (E2E encrypted)''))
               (call_markDelivered mid sid (snd ?R))"
  have res: "createMessage throws now sid sname c iv keys sv =
      (Inr \<lparr> r_id = mid, r_senderId = sid, r_senderUsername = sname, r_createdAt = now \<rparr>,
       broadcastToClientsE2E throws bd keys ?sv4)"
    using ok by (simp add: createMessage_def created Let_def bd_def)
  have w4: "waitingClients ?sv4 = waitingClients sv"
    using R(3) by simp
  show "r = \<lparr> r_id = mid, r_senderId = sid, r_senderUsername = sname, r_createdAt = now \<rparr>"
    using assms(1) res by simp
  show "trace (snd (createMessage throws now sid sname c iv keys sv)) =
           trace sv @ persist_events mid sid keys
             @ Logged (LogInfo ''Message sent (E2E encrypted)'') # broadcast_events throws bd keys sv"
    using R(1) broadcast_events_waiting [OF w4]
    by (simp add: res broadcast_trace_events persist_events_def)
  show "messages (db (snd (createMessage throws now sid sname c iv keys sv))) =
           messages (db sv) @ [?m]"
    using R(2) by (simp add: res broadcast_db)
  show "message_deliveries (db (snd (createMessage throws now sid sname c iv keys sv))) =
           mark_pairs (insert (mid, sid) (Pair mid ` set (served_users throws bd keys sv)))
             (message_deliveries (db sv) @ map (new_delivery mid) keys)"
    using R(2) served_users_waiting [OF w4, of throws bd keys]
    by (simp add: res broadcast_db mark_pairs_twice bd_def)
  show "users (db (snd (createMessage throws now sid sname c iv keys sv))) = users (db sv)"
    using R(2) by (simp add: res broadcast_db)
qed

lemma createMessage_throws:
  assumes "fst (createMessage throws now sid sname c iv keys sv) = Inl e"
  defines "mid \<equiv> fresh_message_id (db sv)"
  shows "\<exists>n < length keys.
      trace (snd (createMessage throws now sid sname c iv keys sv)) =
        trace sv @ CreateMessage mid # map (\<lambda>k. CreateDelivery mid (k_userId k)) (take n keys)
      \<and> message_deliveries (db (snd (createMessage throws now sid sname c iv keys sv))) =
        message_deliveries (db sv) @ map (new_delivery mid) (take n keys)"
proof -
  let ?m = "\<lparr> msg_id = mid, sender_id = sid, encrypted_content = c,
              encryption_iv = iv, created_at = now \<rparr>"
  let ?sv1 = "emit (CreateMessage mid) (sv\<lparr> db := (db sv)\<lparr> messages := messages (db sv) @ [?m] \<rparr> \<rparr>)"
  let ?R = "create_deliveries mid keys ?sv1"
  have created: "db_createMessage now sid c iv (db sv) = (?m, (db sv)\<lparr> messages := messages (db sv) @ [?m] \<rparr>)"
    by (simp add: db_createMessage_def mid_def Let_def)
  from assms(1) have bad: "fst ?R = Inl e"
    by (auto simp: createMessage_def created Let_def split: sum.splits)
  then have res: "createMessage throws now sid sname c iv keys sv = (Inl e, snd ?R)"
    by (simp add: createMessage_def created Let_def)
  from create_deliveries_char [of keys mid ?sv1] bad
  obtain n where "n < length keys"
    "trace (snd ?R) = trace ?sv1 @ map (\<lambda>k. CreateDelivery mid (k_userId k)) (take n keys)"
    "db (snd ?R) = (db ?sv1)\<lparr> message_deliveries :=
          message_deliveries (db ?sv1) @ map (new_delivery mid) (take n keys) \<rparr>"
    by auto
  then show ?thesis
    by (intro exI [of _ n]) (simp add: res)
qed


lemma persist_events_no_attempt:
  "list_all (\<lambda>e. \<not> is_broadcast_attempt e) (persist_events mid sid keys)"
  by (simp add: persist_events_def list_all_iff image_iff)

lemma round_events_no_persist:
  "b_senderId md = sid \<Longrightarrow>
   list_all (\<lambda>e. \<not> is_persist_event mid sid e) (round_events throws md km uc)"
  by (simp add: round_events_def addressed_def)

lemma broadcast_events_no_persist:
  "b_senderId md = sid \<Longrightarrow>
   list_all (\<lambda>e. \<not> is_persist_event mid sid e) (broadcast_events throws md keys sv)"
  using round_events_no_persist [of md sid mid throws "build_keyMap keys"]
  by (auto simp: broadcast_events_def list_all_iff)

lemma ordered_in_append:
  assumes "list_all (\<lambda>e. \<not> Q e) P" "list_all (\<lambda>e. \<not> R e) T"
    and "i < length (P @ T)" "j < length (P @ T)"
    and "R ((P @ T) ! i)" "Q ((P @ T) ! j)"
  shows "i < j"
proof -
  have i: "i < length P"
  proof (rule ccontr)
    assume "\<not> i < length P"
    then have "(P @ T) ! i = T ! (i - length P)" "i - length P < length T"
      using assms(3) by (auto simp: nth_append)
    with assms(2,5) show False by (auto simp: list_all_iff)
  qed
  have j: "\<not> j < length P"
  proof
    assume "j < length P"
    then have "(P @ T) ! j = P ! j" by (simp add: nth_append)
    with assms(1,6) \<open>j < length P\<close> show False by (auto simp: list_all_iff)
  qed
  from i j show ?thesis by simp
qed

text \<open>
  C3. When \<open>createMessage\<close> returns, the events of the call are, in this order: the
  message row created, one delivery row created per entry of \<open>keys\<close>, the sender's own
  delivery marked, the line logged, and then the events of the broadcast. Every event
  that persists the message comes before every attempt to reach a waiting client, the
  result is \<open>{id, senderId, senderUsername, createdAt}\<close>, and the store holds the message
  row and the delivery rows, the sender's marked. When \<open>createMessage\<close> throws (the store
  refuses a delivery row), no client was attempted and nothing is returned.
\<close>

theorem createMessage_persists_before_broadcast:
  "(\<forall>r. fst (createMessage throws now sid sname c iv keys sv) = Inr r \<longrightarrow>
      r = \<lparr> r_id = fresh_message_id (db sv), r_senderId = sid, r_senderUsername = sname,
            r_createdAt = now \<rparr>
      \<and> new_events sv (snd (createMessage throws now sid sname c iv keys sv)) =
          persist_events (fresh_message_id (db sv)) sid keys
            @ Logged (LogInfo ''Message sent (E2E encrypted)'')
            # broadcast_events throws
                \<lparr> b_id = fresh_message_id (db sv), b_senderId = sid, b_senderUsername = sname,
                  b_encryptedContent = c, b_iv = iv, b_createdAt = now \<rparr> keys sv
      \<and> (\<forall>i j. i < length (new_events sv (snd (createMessage throws now sid sname c iv keys sv)))
            \<and> j < length (new_events sv (snd (createMessage throws now sid sname c iv keys sv)))
            \<and> is_persist_event (fresh_message_id (db sv)) sid
                 (new_events sv (snd (createMessage throws now sid sname c iv keys sv)) ! i)
            \<and> is_broadcast_attempt
                 (new_events sv (snd (createMessage throws now sid sname c iv keys sv)) ! j)
            \<longrightarrow> i < j)
      \<and> messages (db (snd (createMessage throws now sid sname c iv keys sv))) =
          messages (db sv) @ [\<lparr> msg_id = fresh_message_id (db sv), sender_id = sid,
                                encrypted_content = c, encryption_iv = iv, created_at = now \<rparr>]
      \<and> message_deliveries (db (snd (createMessage throws now sid sname c iv keys sv))) =
          mark_pairs
            (insert (fresh_message_id (db sv), sid)
               (Pair (fresh_message_id (db sv)) ` set (served_users throws
                  \<lparr> b_id = fresh_message_id (db sv), b_senderId = sid, b_senderUsername = sname,
                    b_encryptedContent = c, b_iv = iv, b_createdAt = now \<rparr> keys sv)))
            (message_deliveries (db sv) @ map (new_delivery (fresh_message_id (db sv))) keys))
   \<and> (\<forall>e. fst (createMessage throws now sid sname c iv keys sv) = Inl e \<longrightarrow>
        list_all (\<lambda>ev. \<not> is_broadcast_attempt ev)
          (new_events sv (snd (createMessage throws now sid sname c iv keys sv))))"
proof (intro conjI allI impI)
  fix r assume ok: "fst (createMessage throws now sid sname c iv keys sv) = Inr r"
  let ?mid = "fresh_message_id (db sv)"
  let ?bd = "\<lparr> b_id = ?mid, b_senderId = sid, b_senderUsername = sname,
                  b_encryptedContent = c, b_iv = iv, b_createdAt = now \<rparr>"
  let ?sv' = "snd (createMessage throws now sid sname c iv keys sv)"
  note facts = createMessage_returns [OF ok]
  show "r = \<lparr> r_id = ?mid, r_senderId = sid, r_senderUsername = sname, r_createdAt = now \<rparr>"
    by (rule facts(1))
  show ev: "new_events sv ?sv' =
          persist_events ?mid sid keys
            @ Logged (LogInfo ''Message sent (E2E encrypted)'') # broadcast_events throws ?bd keys sv"
    by (rule new_events_append) (rule facts(2))
  show "messages (db ?sv') =
          messages (db sv) @ [\<lparr> msg_id = ?mid, sender_id = sid,
                                encrypted_content = c, encryption_iv = iv, created_at = now \<rparr>]"
    by (rule facts(3))
  show "message_deliveries (db ?sv') =
          mark_pairs (insert (?mid, sid) (Pair ?mid ` set (served_users throws ?bd keys sv)))
            (message_deliveries (db sv) @ map (new_delivery ?mid) keys)"
    by (rule facts(4))
  fix i j
  assume ij: "i < length (new_events sv ?sv') \<and> j < length (new_events sv ?sv')
      \<and> is_persist_event ?mid sid (new_events sv ?sv' ! i)
      \<and> is_broadcast_attempt (new_events sv ?sv' ! j)"
  have T: "list_all (\<lambda>e. \<not> is_persist_event ?mid sid e)
      (Logged (LogInfo ''Message sent (E2E encrypted)'') # broadcast_events throws ?bd keys sv)"
    using broadcast_events_no_persist [of ?bd sid ?mid throws keys sv] by simp
  show "i < j"
    using ordered_in_append [OF persist_events_no_attempt T, of i ?mid sid keys j] ij
    unfolding ev by blast
next
  fix e assume bad: "fst (createMessage throws now sid sname c iv keys sv) = Inl e"
  from createMessage_throws [OF bad] obtain n where
    "trace (snd (createMessage throws now sid sname c iv keys sv)) =
        trace sv @ CreateMessage (fresh_message_id (db sv))
          # map (\<lambda>k. CreateDelivery (fresh_message_id (db sv)) (k_userId k)) (take n keys)"
    by blast
  then have "new_events sv (snd (createMessage throws now sid sname c iv keys sv)) =
      CreateMessage (fresh_message_id (db sv))
          # map (\<lambda>k. CreateDelivery (fresh_message_id (db sv)) (k_userId k)) (take n keys)"
    by (rule new_events_append)
  then show "list_all (\<lambda>ev. \<not> is_broadcast_attempt ev)
          (new_events sv (snd (createMessage throws now sid sname c iv keys sv)))"
    by (simp add: list_all_iff image_iff) 
qed


theorem createMessage_persists_before_broadcast_witness:
  "fst (createMessage (\<lambda>r. r = 20) ''t1'' 1 ''alice'' ''encrypted-content-hex'' ''iv-hex'' mockKeys
          mockServerWaiting)
     = Inr \<lparr> r_id = 1, r_senderId = 1, r_senderUsername = ''alice'', r_createdAt = ''t1'' \<rparr>
   \<and> new_events mockServerWaiting
        (snd (createMessage (\<lambda>r. r = 20) ''t1'' 1 ''alice'' ''encrypted-content-hex'' ''iv-hex''
                mockKeys mockServerWaiting))
     = [CreateMessage 1, CreateDelivery 1 1, CreateDelivery 1 2, CreateDelivery 1 3,
        MarkDelivered 1 1, Logged (LogInfo ''Message sent (E2E encrypted)''),
        ClearTimeout 200, ResJsonThrew 20, Logged (LogError ''Failed to send to polling client''),
        ClearTimeout 300,
        ResJson 30 [\<lparr> em_id = 1, em_senderId = 1, em_senderUsername = ''alice'',
                      em_encryptedContent = ''encrypted-content-hex'', em_iv = ''iv-hex'',
                      em_encryptedKey = ''enc-key-for-charlie'', em_createdAt = ''t1'' \<rparr>],
        MarkDelivered 1 3, Logged (LogInfo ''E2E broadcast sent'')]"
proof -
  let ?throws = "\<lambda>r :: nat. r = 20"
  let ?R = "createMessage ?throws ''t1'' 1 ''alice'' ''encrypted-content-hex'' ''iv-hex'' mockKeys
      mockServerWaiting"
  have ok: "fst ?R
      = Inr \<lparr> r_id = 1, r_senderId = 1, r_senderUsername = ''alice'', r_createdAt = ''t1'' \<rparr>"
    by code_simp
  have fresh: "fresh_message_id (db mockServerWaiting) = 1"
    by (simp add: fresh_message_id_def mockServerWaiting_def mockServer_def)
  from ok createMessage_persists_before_broadcast
    [of ?throws "''t1''" 1 "''alice''" "''encrypted-content-hex''" "''iv-hex''" mockKeys
      mockServerWaiting]
  have ev: "new_events mockServerWaiting (snd ?R) =
      persist_events (fresh_message_id (db mockServerWaiting)) 1 mockKeys
        @ Logged (LogInfo ''Message sent (E2E encrypted)'')
        # broadcast_events ?throws
            \<lparr> b_id = fresh_message_id (db mockServerWaiting), b_senderId = 1,
              b_senderUsername = ''alice'', b_encryptedContent = ''encrypted-content-hex'',
              b_iv = ''iv-hex'', b_createdAt = ''t1'' \<rparr> mockKeys mockServerWaiting"
    by blast
  have p: "persist_events 1 1 mockKeys =
      [CreateMessage 1, CreateDelivery 1 1, CreateDelivery 1 2, CreateDelivery 1 3,
       MarkDelivered 1 1]"
    by (simp add: persist_events_def mockKeys_def)
  have b: "broadcast_events ?throws
            \<lparr> b_id = 1, b_senderId = 1,
              b_senderUsername = ''alice'', b_encryptedContent = ''encrypted-content-hex'',
              b_iv = ''iv-hex'', b_createdAt = ''t1'' \<rparr> mockKeys mockServerWaiting =
      [ClearTimeout 200, ResJsonThrew 20, Logged (LogError ''Failed to send to polling client''),
       ClearTimeout 300,
       ResJson 30 [\<lparr> em_id = 1, em_senderId = 1, em_senderUsername = ''alice'',
                      em_encryptedContent = ''encrypted-content-hex'', em_iv = ''iv-hex'',
                      em_encryptedKey = ''enc-key-for-charlie'', em_createdAt = ''t1'' \<rparr>],
       MarkDelivered 1 3, Logged (LogInfo ''E2E broadcast sent'')]"
    by code_simp
  from ok ev p b show ?thesis
    by (simp only: fresh) simp
qed

subsection \<open>The delivered flag\<close>














lemma try_json_db [simp]: "db (try_json throws res msgs sv) = db sv"
  by (simp add: try_json_def)

lemma registerPollingClient_db [simp]:
  "db (registerPollingClient throws u res t sv) = db sv"
  by (simp add: registerPollingClient_def Let_def split: option.splits)









lemma poll_timeout_db [simp]: "db (poll_timeout throws u res sv) = db sv"
  by (simp add: poll_timeout_def)

lemma poll_close_db [simp]: "db (poll_close u res sv) = db sv"
  by (simp add: poll_close_def split: option.splits)

lemma removePollingClient_db [simp]: "db (removePollingClient u sv) = db sv"
  by (simp add: removePollingClient_def split: option.splits)



subsection \<open>Browser cryptography: the round trips over the primitives\<close>

lemma of_char_hex_digit:
  "d < 16 \<Longrightarrow> of_char (hex_digit d) = (if d < 10 then 48 + d else 87 + d)"
  by (simp add: hex_digit_def)

lemma digit_of_hex_digit: "d < 16 \<Longrightarrow> digit_of (hex_digit d) = Some d"
  by (auto simp: digit_of_def of_char_hex_digit Let_def)

lemma hex_digit_not_space: "d < 16 \<Longrightarrow> \<not> is_js_space (hex_digit d)"
  by (auto simp: is_js_space_def of_char_hex_digit)

lemma hex_digit_neq:
  assumes "d < 16"
  shows "hex_digit d \<noteq> CHR ''-''" "hex_digit d \<noteq> CHR ''+''"
    "hex_digit d \<noteq> CHR ''x''" "hex_digit d \<noteq> CHR ''X''"
proof -
  have "of_char (hex_digit d) \<noteq> (45 :: nat)" "of_char (hex_digit d) \<noteq> (43 :: nat)"
    "of_char (hex_digit d) \<noteq> (120 :: nat)" "of_char (hex_digit d) \<noteq> (88 :: nat)"
    using assms by (auto simp: of_char_hex_digit)
  then show "hex_digit d \<noteq> CHR ''-''" "hex_digit d \<noteq> CHR ''+''"
    "hex_digit d \<noteq> CHR ''x''" "hex_digit d \<noteq> CHR ''X''"
    by auto
qed

lemma parseInt16_pair:
  assumes "a < 16" "b < 16"
  shows "parseInt16 [hex_digit a, hex_digit b] = Some (int (a * 16 + b))"
  using assms hex_digit_neq [OF assms(1)] hex_digit_neq [OF assms(2)]
    hex_digit_not_space [OF assms(1)]
  by (simp add: parseInt16_def digit_in_radix_def digits_value_def digit_of_hex_digit)


lemma char_of_eq: "of_char c = (n :: nat) \<Longrightarrow> char_of n = c"
  by auto

lemma hex_digit_values:
  "hex_digit 0 = CHR ''0''" "hex_digit 1 = CHR ''1''" "hex_digit 2 = CHR ''2''"
  "hex_digit 3 = CHR ''3''" "hex_digit 4 = CHR ''4''" "hex_digit 5 = CHR ''5''"
  "hex_digit 6 = CHR ''6''" "hex_digit 7 = CHR ''7''" "hex_digit 8 = CHR ''8''"
  "hex_digit 9 = CHR ''9''" "hex_digit 10 = CHR ''a''" "hex_digit 11 = CHR ''b''"
  "hex_digit 12 = CHR ''c''" "hex_digit 13 = CHR ''d''" "hex_digit 14 = CHR ''e''"
  "hex_digit 15 = CHR ''f''"
  unfolding hex_digit_def by (simp_all add: char_of_eq)

lemma pad_toString16:
  "b < 256 \<Longrightarrow> padStart2 (toString16 b) = [hex_digit (b div 16), hex_digit (b mod 16)]"
  by (auto simp: padStart2_def toString16_def hex_digit_values)

lemma hexToBytes_Cons2:
  "hexToBytes (a # b # rest) = ToUint8 (parseInt16 [a, b]) # hexToBytes rest"
  by (simp add: hexToBytes_def substr_def map_upt_Suc del: upt_Suc)

lemma hexToBytes_Nil [simp]: "hexToBytes [] = []"
  by (simp add: hexToBytes_def)

lemma byte_of_pair:
  "b < 256 \<Longrightarrow> ToUint8 (parseInt16 [hex_digit (b div 16), hex_digit (b mod 16)]) = b"
proof -
  assume b: "b < 256"
  then have "b div 16 < 16" "b mod 16 < 16" by auto
  from parseInt16_pair [OF this] show ?thesis
    using b by (simp add: ToUint8_def)
qed

lemma hexToBytes_bytesToHex:
  "list_all (\<lambda>b. b < 256) bytes \<Longrightarrow> hexToBytes (bytesToHex bytes) = bytes"
proof (induction bytes)
  case Nil
  show ?case by (simp add: bytesToHex_def)
next
  case (Cons b bytes)
  then have b: "b < 256" and rest: "hexToBytes (bytesToHex bytes) = bytes"
    by simp_all
  have "bytesToHex (b # bytes) = hex_digit (b div 16) # hex_digit (b mod 16) # bytesToHex bytes"
    using pad_toString16 [OF b] by (simp add: bytesToHex_def)
  then show ?case
    by (simp add: hexToBytes_Cons2 byte_of_pair [OF b] rest)
qed

lemma lower_hex_char:
  "c \<in> set ''0123456789abcdef'' \<Longrightarrow> \<exists>d < 16. c = hex_digit d"
proof -
  assume "c \<in> set ''0123456789abcdef''"
  then have "c = hex_digit 0 \<or> c = hex_digit 1 \<or> c = hex_digit 2 \<or> c = hex_digit 3
      \<or> c = hex_digit 4 \<or> c = hex_digit 5 \<or> c = hex_digit 6 \<or> c = hex_digit 7
      \<or> c = hex_digit 8 \<or> c = hex_digit 9 \<or> c = hex_digit 10 \<or> c = hex_digit 11
      \<or> c = hex_digit 12 \<or> c = hex_digit 13 \<or> c = hex_digit 14 \<or> c = hex_digit 15"
    by (simp only: hex_digit_values) simp
  then show ?thesis
    by (elim disjE) (rule exI, erule conjI [rotated], simp)+
qed

lemma pair_of_byte:
  assumes "a < 16" "b < 16"
  shows "padStart2 (toString16 (ToUint8 (parseInt16 [hex_digit a, hex_digit b])))
     = [hex_digit a, hex_digit b]"
proof -
  have v: "ToUint8 (parseInt16 [hex_digit a, hex_digit b]) = a * 16 + b"
    using assms by (simp add: parseInt16_pair ToUint8_def)
  have "a * 16 + b < 256" using assms by simp
  moreover have "(a * 16 + b) div 16 = a" "(a * 16 + b) mod 16 = b"
    using assms by simp_all
  ultimately show ?thesis
    using pad_toString16 [of "a * 16 + b"] by (simp add: v)
qed

lemma bytesToHex_Cons: "bytesToHex (b # bs) = padStart2 (toString16 b) @ bytesToHex bs"
  by (simp add: bytesToHex_def)

lemma bytesToHex_hexToBytes:
  "is_lower_hex hex \<Longrightarrow> even (length hex) \<Longrightarrow> bytesToHex (hexToBytes hex) = hex"
proof (induction hex rule: induct_list012)
  case 1
  show ?case by (simp add: bytesToHex_def)
next
  case (2 x)
  then show ?case by simp
next
  case (3 x y zs)
  from 3(3) have hx: "x \<in> set ''0123456789abcdef''" and hy: "y \<in> set ''0123456789abcdef''"
    and hz: "is_lower_hex zs"
    by (simp_all add: is_lower_hex_def)
  from lower_hex_char [OF hx] obtain a where a: "a < 16" "x = hex_digit a" by blast
  from lower_hex_char [OF hy] obtain b where b: "b < 16" "y = hex_digit b" by blast
  from 3(4) have "even (length zs)" by simp
  with 3(1) hz have IH: "bytesToHex (hexToBytes zs) = zs" by simp
  show ?case
    by (simp add: hexToBytes_Cons2 bytesToHex_Cons a(2) b(2) pair_of_byte [OF a(1) b(1)] IH)
qed

lemma split_colon_no_colon:
  "CHR '':'' \<notin> set s \<Longrightarrow> split_colon s = [s]"
  by (induction s) auto

lemma split_colon_append:
  "CHR '':'' \<notin> set s \<Longrightarrow> split_colon (s @ CHR '':'' # t) = s # split_colon t"
  by (induction s) auto

lemma split_composite:
  "CHR '':'' \<notin> set saltHex \<Longrightarrow> CHR '':'' \<notin> set ivHex \<Longrightarrow>
   split_colon (saltHex @ '':'' @ ivHex) = [saltHex, ivHex]"
  by (simp add: split_colon_append split_colon_no_colon)

lemma lower_hex_no_colon: "is_lower_hex s \<Longrightarrow> CHR '':'' \<notin> set s"
proof
  assume "is_lower_hex s" "CHR '':'' \<in> set s"
  then have "CHR '':'' \<in> set ''0123456789abcdef''"
    unfolding is_lower_hex_def list_all_iff by blast
  then show False by simp
qed

lemma backup_decrypts_under_same_key:
  assumes aes: "\<And>p k i ct. AES_encrypt p k i = Inr ct \<Longrightarrow> AES_decrypt ct i k = Inr p"
    and salt: "is_lower_hex saltHex" and iv: "is_lower_hex iv"
    and enc: "encryptPrivateKey SHA256 rounds AES_encrypt saltHex iv privateKeyPem password
                = Inr (ct, composite)"
    and same: "PBKDF2 SHA256 rounds other saltHex PBKDF2_ITERATIONS
                = PBKDF2 SHA256 rounds password saltHex PBKDF2_ITERATIONS"
  shows "decryptPrivateKey SHA256 rounds AES_decrypt ct composite other = Inr privateKeyPem"
proof -
  from enc have ct: "AES_encrypt privateKeyPem
        (PBKDF2 SHA256 rounds password saltHex PBKDF2_ITERATIONS) iv = Inr ct"
    and comp: "composite = saltHex @ '':'' @ iv"
    by (auto simp: encryptPrivateKey_def aesEncrypt_def Let_def split: sum.splits)
  have "split_colon composite = [saltHex, iv]"
    unfolding comp
    by (rule split_composite) (rule lower_hex_no_colon, fact)+
  then show ?thesis
    using aes [OF ct] same by (simp add: decryptPrivateKey_def aesDecrypt_def Let_def)
qed

lemma utf8_bytes_append: "utf8_bytes (a @ b) = utf8_bytes a @ utf8_bytes b"
  by (simp add: utf8_bytes_def)

lemma utf8_bytes_nul: "utf8_bytes (replicate n (CHR 0x00)) = replicate n 0"
  by (induction n) (simp_all add: utf8_bytes_def)

lemma hmac_key_block_zeros:
  assumes "length key + n \<le> 64"
  shows "hmac_key_block SHA256 (key @ replicate n 0) = hmac_key_block SHA256 key"
proof -
  have "replicate n (0 :: nat) @ replicate (64 - (length key + n)) 0 = replicate (64 - length key) 0"
    using assms by (simp add: replicate_add [symmetric])
  then show ?thesis
    using assms by (simp add: hmac_key_block_def)
qed

lemma PBKDF2_nul_padded:
  assumes "length (utf8_bytes password) + n \<le> 64"
  shows "PBKDF2 SHA256 rounds (password @ replicate n (CHR 0x00)) saltHex iterations
     = PBKDF2 SHA256 rounds password saltHex iterations"
  using hmac_key_block_zeros [OF assms]
  by (simp add: PBKDF2_def utf8_bytes_append utf8_bytes_nul)

lemma toy_key:
  "bytesToHex (take 32 (hmac_key_block (\<lambda>bs. bs) (utf8_bytes ''pw'')))
     = ''7077000000000000000000000000000000000000000000000000000000000000''"
  "bytesToHex (take 32 (hmac_key_block (\<lambda>bs. bs) (utf8_bytes (''pw'' @ [CHR 0x00]))))
     = ''7077000000000000000000000000000000000000000000000000000000000000''"
  "bytesToHex (take 32 (hmac_key_block (\<lambda>bs. bs) (utf8_bytes ''pW'')))
     = ''7057000000000000000000000000000000000000000000000000000000000000''"
  by code_simp+

lemma toy_split: "split_colon ''a1b2:c3d4'' = [''a1b2'', ''c3d4'']"
  by simp

text \<open>
  C4, as stated, fails in its second half. The password \<open>pw\<close> followed by a NUL character
  is a different password, and it decrypts the backup made with \<open>pw\<close> to the original PEM:
  the HMAC of PBKDF2 pads its key with zero bytes, so both passwords give the same key
  block and the same derived key. The cipher of this example is one that tells keys
  apart (it throws under any other key, as it does for the password \<open>pW\<close>), and the
  rounds of PBKDF2 are one-to-one on the key block.
\<close>

theorem private_key_backup_wrong_password_counterexample:
  "encryptPrivateKey (\<lambda>bs. bs) (\<lambda>block salt n. bytesToHex (take 32 block))
      (\<lambda>p k i. Inr (k @ p)) ''a1b2'' ''c3d4'' ''PEM'' ''pw''
     = Inr (''7077000000000000000000000000000000000000000000000000000000000000PEM'',
            ''a1b2:c3d4'')
   \<and> decryptPrivateKey (\<lambda>bs. bs) (\<lambda>block salt n. bytesToHex (take 32 block))
        (\<lambda>ct i k. if take (length k) ct = k then Inr (drop (length k) ct)
                   else Inl (Error ''Malformed UTF-8 data'' None))
        ''7077000000000000000000000000000000000000000000000000000000000000PEM''
        ''a1b2:c3d4'' (''pw'' @ [CHR 0x00])
     = Inr ''PEM''
   \<and> ''pw'' @ [CHR 0x00] \<noteq> ''pw''
   \<and> decryptPrivateKey (\<lambda>bs. bs) (\<lambda>block salt n. bytesToHex (take 32 block))
        (\<lambda>ct i k. if take (length k) ct = k then Inr (drop (length k) ct)
                   else Inl (Error ''Malformed UTF-8 data'' None))
        ''7077000000000000000000000000000000000000000000000000000000000000PEM''
        ''a1b2:c3d4'' ''pW''
     = Inl (Error ''Malformed UTF-8 data'' None)"
  unfolding encryptPrivateKey_def decryptPrivateKey_def aesEncrypt_def aesDecrypt_def PBKDF2_def
    toy_split
  by (simp add: toy_key del: append.simps)

text \<open>
  C4, amended. When the cipher decrypts what it encrypted, under the same key and IV,
  \<open>decryptPrivateKey\<close> applied to the output of \<open>encryptPrivateKey\<close> (the ciphertext and
  the composite IV \<open>saltHex:ivHex\<close>, which splits back into the two hex strings) with the
  same password returns the original PEM. So does every password from which PBKDF2
  derives the same key, and the password followed by NUL characters is one, as long as
  its UTF-8 encoding with them has at most 64 bytes. What decrypting gives under a
  password with another derived key is a property of AES, not of this program.
\<close>

theorem private_key_backup_round_trip:
  assumes aes: "\<And>p k i ct. AES_encrypt p k i = Inr ct \<Longrightarrow> AES_decrypt ct i k = Inr p"
    and salt: "is_lower_hex saltHex" and iv: "is_lower_hex iv"
    and enc: "encryptPrivateKey SHA256 rounds AES_encrypt saltHex iv privateKeyPem password
                = Inr (ct, composite)"
  shows "decryptPrivateKey SHA256 rounds AES_decrypt ct composite password = Inr privateKeyPem
    \<and> (\<forall>other. PBKDF2 SHA256 rounds other saltHex PBKDF2_ITERATIONS
                  = PBKDF2 SHA256 rounds password saltHex PBKDF2_ITERATIONS \<longrightarrow>
          decryptPrivateKey SHA256 rounds AES_decrypt ct composite other = Inr privateKeyPem)
    \<and> (\<forall>n. length (utf8_bytes password) + n \<le> 64 \<longrightarrow>
          decryptPrivateKey SHA256 rounds AES_decrypt ct composite
            (password @ replicate n (CHR 0x00)) = Inr privateKeyPem)"
proof (intro conjI allI impI)
  show "decryptPrivateKey SHA256 rounds AES_decrypt ct composite password = Inr privateKeyPem"
    by (rule backup_decrypts_under_same_key [OF aes salt iv enc]) simp_all
next
  fix other
  assume "PBKDF2 SHA256 rounds other saltHex PBKDF2_ITERATIONS
      = PBKDF2 SHA256 rounds password saltHex PBKDF2_ITERATIONS"
  with backup_decrypts_under_same_key [OF aes salt iv enc, where other = other]
  show "decryptPrivateKey SHA256 rounds AES_decrypt ct composite other = Inr privateKeyPem"
    by simp
next
  fix n
  assume "length (utf8_bytes password) + n \<le> 64"
  from PBKDF2_nul_padded [OF this, of SHA256 rounds saltHex PBKDF2_ITERATIONS]
    backup_decrypts_under_same_key [OF aes salt iv enc,
      where other = "password @ replicate n (CHR 0x00)"]
  show "decryptPrivateKey SHA256 rounds AES_decrypt ct composite
      (password @ replicate n (CHR 0x00)) = Inr privateKeyPem"
    by simp
qed

theorem private_key_backup_round_trip_witness:
  "decryptPrivateKey (\<lambda>bs. bs) (\<lambda>block salt n. bytesToHex (take 32 block))
      (\<lambda>ct i k. if take (length k) ct = k then Inr (drop (length k) ct)
                 else Inl (Error ''Malformed UTF-8 data'' None))
      ''7077000000000000000000000000000000000000000000000000000000000000PEM''
      ''a1b2:c3d4'' ''pw''
     = Inr ''PEM''
   \<and> decryptPrivateKey (\<lambda>bs. bs) (\<lambda>block salt n. bytesToHex (take 32 block))
      (\<lambda>ct i k. if take (length k) ct = k then Inr (drop (length k) ct)
                 else Inl (Error ''Malformed UTF-8 data'' None))
      ''7077000000000000000000000000000000000000000000000000000000000000PEM''
      ''a1b2:c3d4'' (''pw'' @ replicate 3 (CHR 0x00))
     = Inr ''PEM''"
proof -
  let ?H = "\<lambda>bs :: nat list. bs"
  let ?R = "\<lambda>(block :: nat list) (salt :: string) (n :: nat). bytesToHex (take 32 block)"
  let ?AE = "\<lambda>(p :: string) (k :: string) (i :: string). (Inr (k @ p) :: js_error + string)"
  let ?AD = "\<lambda>(ct :: string) (i :: string) (k :: string).
      if take (length k) ct = k then Inr (drop (length k) ct)
      else (Inl (Error ''Malformed UTF-8 data'' None) :: js_error + string)"
  let ?ct = "''7077000000000000000000000000000000000000000000000000000000000000PEM''"
  have aes: "\<And>p k i ct. ?AE p k i = Inr ct \<Longrightarrow> ?AD ct i k = Inr p"
    by auto
  have hex: "is_lower_hex ''a1b2''" "is_lower_hex ''c3d4''"
    by (simp_all add: is_lower_hex_def)
  have enc: "encryptPrivateKey ?H ?R ?AE ''a1b2'' ''c3d4'' ''PEM'' ''pw''
      = Inr (?ct, ''a1b2:c3d4'')"
    unfolding encryptPrivateKey_def aesEncrypt_def PBKDF2_def
    by (simp add: toy_key del: append.simps)
  have short: "length (utf8_bytes ''pw'') + 3 \<le> 64"
    by (simp add: utf8_bytes_def)
  note t = private_key_backup_round_trip [of ?AE ?AD "''a1b2''" "''c3d4''" ?H ?R "''PEM''" "''pw''"
      ?ct "''a1b2:c3d4''", OF aes hex enc]
  from t have 1: "decryptPrivateKey ?H ?R ?AD ?ct ''a1b2:c3d4'' ''pw'' = Inr ''PEM''"
    by blast
  from t short have 2: "decryptPrivateKey ?H ?R ?AD ?ct ''a1b2:c3d4''
      (''pw'' @ replicate 3 (CHR 0x00)) = Inr ''PEM''"
    by blast
  from 1 2 show ?thesis by blast
qed

text \<open>
  The hybrid scheme: when both ciphers decrypt what they encrypted, every recipient gets
  an entry of \<open>keys\<close> under their own user id, and \<open>decryptMessage\<close> with that entry's
  wrapped key and the recipient's private key returns the plaintext. The AES key goes
  through \<open>hexToBytes\<close> on the way into RSA and through \<open>bytesToHex\<close> on the way out,
  which are inverse on the lower-case hex strings of even length. Whether two
  recipients' wrapped keys differ rests on the random padding of RSA-OAEP.
\<close>

lemma wrap_keys_nth:
  assumes "wrap_keys RSA_encrypt bytes seed n recipients = Inr ks" "i < length recipients"
  shows "length ks = length recipients
    \<and> k_userId (ks ! i) = rc_userId (recipients ! i)
    \<and> RSA_encrypt (rc_publicKey (recipients ! i)) bytes (seed (n + i))
        = Inr (k_encryptedKey (ks ! i))"
  using assms
proof (induction recipients arbitrary: ks i n)
  case Nil
  then show ?case by simp
next
  case (Cons r rs)
  from Cons.prems(1) obtain ek ks' where ek: "RSA_encrypt (rc_publicKey r) bytes (seed n) = Inr ek"
    and ks': "wrap_keys RSA_encrypt bytes seed (Suc n) rs = Inr ks'"
    and ks: "ks = \<lparr> k_userId = rc_userId r, k_encryptedKey = ek \<rparr> # ks'"
    by (auto split: sum.splits)
  have len: "length ks' = length rs"
  proof (cases rs)
    case Nil
    with ks' show ?thesis by simp
  next
    case (Cons a list)
    with Cons.IH [OF ks', of 0] show ?thesis by simp
  qed
  show ?case
  proof (cases i)
    case 0
    with ek ks len show ?thesis by simp
  next
    case (Suc j)
    with Cons.prems(2) have "j < length rs" by simp
    from Cons.IH [OF ks' this] show ?thesis
      using Suc ks by simp
  qed
qed

lemma ToUint8_byte: "ToUint8 v < 256"
proof (cases v)
  case None
  then show ?thesis by (simp add: ToUint8_def)
next
  case (Some n)
  have "0 \<le> n mod 256" "n mod 256 < 256" by simp_all
  then have "nat (n mod 256) < 256" by linarith
  with Some show ?thesis by (simp add: ToUint8_def)
qed

lemma hexToBytes_bytes: "list_all (\<lambda>b. b < 256) (hexToBytes hex)"
  by (simp add: hexToBytes_def list_all_iff ToUint8_byte)

lemma hybrid_round_trip:
  assumes aes: "\<And>p k i ct. AES_encrypt p k i = Inr ct \<Longrightarrow> AES_decrypt ct i k = Inr p"
    and rsa: "\<And>pub priv d sd ct. keypair pub priv \<Longrightarrow> list_all (\<lambda>b. b < 256) d \<Longrightarrow>
                RSA_encrypt pub d sd = Inr ct \<Longrightarrow> RSA_decrypt priv ct = Inr d"
    and hex: "is_lower_hex aesKeyHex" "even (length aesKeyHex)"
    and enc: "encryptMessageForRecipients AES_encrypt RSA_encrypt aesKeyHex iv seed plaintext
                recipients = Inr m"
    and i: "i < length recipients"
    and kp: "keypair (rc_publicKey (recipients ! i)) priv"
  shows "length (x_keys m) = length recipients
    \<and> k_userId (x_keys m ! i) = rc_userId (recipients ! i)
    \<and> decryptMessage AES_decrypt RSA_decrypt (x_encryptedContent m) (x_iv m)
          (k_encryptedKey (x_keys m ! i)) priv = Inr plaintext"
proof -
  from enc obtain ct ks where ct: "AES_encrypt plaintext aesKeyHex iv = Inr ct"
    and ks: "wrap_keys RSA_encrypt (hexToBytes aesKeyHex) seed 0 recipients = Inr ks"
    and m: "m = \<lparr> x_encryptedContent = ct, x_iv = iv, x_keys = ks \<rparr>"
    by (auto simp: encryptMessageForRecipients_def aesEncrypt_def split: sum.splits)
  from wrap_keys_nth [OF ks i]
  have len: "length ks = length recipients"
    and uid: "k_userId (ks ! i) = rc_userId (recipients ! i)"
    and wrapped: "RSA_encrypt (rc_publicKey (recipients ! i)) (hexToBytes aesKeyHex) (seed (0 + i))
        = Inr (k_encryptedKey (ks ! i))"
    by simp_all
  from rsa [OF kp hexToBytes_bytes wrapped]
  have "RSA_decrypt priv (k_encryptedKey (ks ! i)) = Inr (hexToBytes aesKeyHex)" .
  then have "decryptMessage AES_decrypt RSA_decrypt ct iv (k_encryptedKey (ks ! i)) priv
      = Inr plaintext"
    using aes [OF ct] bytesToHex_hexToBytes [OF hex]
    by (simp add: decryptMessage_def aesDecrypt_def)
  with len uid show ?thesis by (simp add: m)
qed


lemma hybrid_example:
  "encryptMessageForRecipients (\<lambda>p k i. Inr p) (\<lambda>pub d sd. Inr (pub @ bytesToHex d))
      ''0a1b'' ''c3d4'' (\<lambda>n. n) ''hello''
      [\<lparr> rc_userId = 1, rc_publicKey = ''A'' \<rparr>, \<lparr> rc_userId = 2, rc_publicKey = ''B'' \<rparr>]
     = Inr \<lparr> x_encryptedContent = ''hello'', x_iv = ''c3d4'',
             x_keys = [\<lparr> k_userId = 1, k_encryptedKey = ''A0a1b'' \<rparr>,
                       \<lparr> k_userId = 2, k_encryptedKey = ''B0a1b'' \<rparr>] \<rparr>
   \<and> decryptMessage (\<lambda>ct i k. Inr ct) (\<lambda>priv ct. Inr (hexToBytes (drop 1 ct)))
        ''hello'' ''c3d4'' ''B0a1b'' ''B'' = Inr ''hello''"
proof -
  let ?AE = "\<lambda>(p :: string) (k :: string) (i :: string). (Inr p :: js_error + string)"
  let ?AD = "\<lambda>(ct :: string) (i :: string) (k :: string). (Inr ct :: js_error + string)"
  let ?RE = "\<lambda>(pub :: string) (d :: nat list) (sd :: nat).
      (Inr (pub @ bytesToHex d) :: js_error + string)"
  let ?RD = "\<lambda>(priv :: string) (ct :: string). (Inr (hexToBytes (drop 1 ct)) :: js_error + nat list)"
  let ?rs = "[\<lparr> rc_userId = 1, rc_publicKey = ''A'' \<rparr>, \<lparr> rc_userId = 2, rc_publicKey = ''B'' \<rparr>]"
  let ?m = "\<lparr> x_encryptedContent = ''hello'', x_iv = ''c3d4'',
             x_keys = [\<lparr> k_userId = 1, k_encryptedKey = ''A0a1b'' \<rparr>,
                       \<lparr> k_userId = 2, k_encryptedKey = ''B0a1b'' \<rparr>] \<rparr>"
  have e: "encryptMessageForRecipients ?AE ?RE ''0a1b'' ''c3d4'' (\<lambda>n. n) ''hello'' ?rs
      = Inr ?m"
    by code_simp
  have rsa: "\<And>pub priv d sd ct. length pub = 1 \<and> priv = pub \<Longrightarrow> list_all (\<lambda>b. b < 256) d \<Longrightarrow>
      ?RE pub d sd = Inr ct \<Longrightarrow> ?RD priv ct = Inr d"
    by (auto simp: hexToBytes_bytesToHex)
  have "decryptMessage ?AD ?RD (x_encryptedContent ?m) (x_iv ?m)
          (k_encryptedKey (x_keys ?m ! 1)) ''B'' = Inr ''hello''"
    using hybrid_round_trip [of ?AE ?AD "\<lambda>pub priv. length pub = 1 \<and> priv = pub" ?RE ?RD
        "''0a1b''" "''c3d4''" "\<lambda>n. n" "''hello''" ?rs ?m 1 "''B''", OF _ rsa _ _ e]
    by (simp add: is_lower_hex_def)
  with e show ?thesis by simp
qed

end
